theory Spec2Isabelle
  imports Main "HOL-Library.Monad_Syntax"
begin

section \<open>Conventions\<close>

text \<open>
  A Python \<open>str\<close> is modelled as a \<open>string\<close>, a list of characters with code points
  \<open>0..255\<close>; text with other code points is outside the model. Python's unbounded
  \<open>int\<close> is \<open>int\<close>. Positions and lengths of strings and lists are \<open>nat\<close>. A Python
  exception is a value of \<open>error\<close>, and a function that can raise returns
  \<open>error + 'a\<close> with \<open>Inl\<close> for the exception.
\<close>

datatype error =
    FileNotFoundError string
  | IndexError
  | OSError
  | ValueError
  | JSONDecodeError
  | AttributeError
  | TypeError
  | UnicodeDecodeError
  | OverflowError
  | IsADirectoryError string
  | HTTPException nat string

text \<open>Sequencing of two steps that can raise: the second runs on the value of the first.\<close>

definition try_bind :: "error + 'a \<Rightarrow> ('a \<Rightarrow> error + 'b) \<Rightarrow> error + 'b" where
  "try_bind x f = (case x of Inl e \<Rightarrow> Inl e | Inr v \<Rightarrow> f v)"

section \<open>Color model (webviz/ansi.py)\<close>

text \<open>Python's \<open>format(v, "02x")\<close>: lowercase hexadecimal, zero-padded to width 2; the sign
  of a negative number counts towards the width.\<close>

definition hex_digit :: "nat \<Rightarrow> char" where
  "hex_digit d = ''0123456789abcdef'' ! d"

fun hex_nat :: "nat \<Rightarrow> string" where
  "hex_nat n = (if n < 16 then [hex_digit n] else hex_nat (n div 16) @ [hex_digit (n mod 16)])"

definition format_02x :: "int \<Rightarrow> string" where
  "format_02x v =
     (if v < 0 then CHR ''-'' # hex_nat (nat (- v))
      else (let d = hex_nat (nat v) in if length d < 2 then CHR ''0'' # d else d))"

text \<open>\<open>BASIC_COLORS\<close> and \<open>BASIC_BG\<close>: the latter is the former shifted by 10, then updated
  with the bright backgrounds 100..107.\<close>

definition BASIC_COLORS :: "(int \<times> string) list" where
  "BASIC_COLORS =
    [(30, ''#000000''), (31, ''#b22222''), (32, ''#228b22''), (33, ''#b8860b''),
     (34, ''#1e90ff''), (35, ''#9932cc''), (36, ''#20b2aa''), (37, ''#bfbfbf''),
     (90, ''#808080''), (91, ''#ff4d4d''), (92, ''#59c659''), (93, ''#ffd24d''),
     (94, ''#4d88ff''), (95, ''#cc66ff''), (96, ''#33cccc''), (97, ''#ffffff'')]"

definition BASIC_BG :: "(int \<times> string) list" where
  "BASIC_BG =
    [(100, ''#555555''), (101, ''#ff6b6b''), (102, ''#6bd36b''), (103, ''#ffe27a''),
     (104, ''#7aa7ff''), (105, ''#da8cff''), (106, ''#66e0e0''), (107, ''#f7f7f7'')]
    @ map (\<lambda>(c, col). (c + 10, col)) BASIC_COLORS"

definition LUT :: "(int \<times> string) list" where
  "LUT =
    [(0, ''#000000''), (1, ''#800000''), (2, ''#008000''), (3, ''#808000''),
     (4, ''#000080''), (5, ''#800080''), (6, ''#008080''), (7, ''#c0c0c0''),
     (8, ''#808080''), (9, ''#ff0000''), (10, ''#00ff00''), (11, ''#ffff00''),
     (12, ''#0000ff''), (13, ''#ff00ff''), (14, ''#00ffff''), (15, ''#ffffff'')]"

text \<open>Python's \<open>d.get(k, default)\<close> on a dictionary given as an association list.\<close>

definition dict_get :: "('k \<times> 'v) list \<Rightarrow> 'k \<Rightarrow> 'v \<Rightarrow> 'v" where
  "dict_get d k dflt = (case map_of d k of Some v \<Rightarrow> v | None \<Rightarrow> dflt)"

definition to_255 :: "int \<Rightarrow> int" where
  "to_255 v = (if v = 0 then 0 else 55 + v * 40)"

definition xterm_256_to_hex :: "int \<Rightarrow> string" where
  "xterm_256_to_hex n =
     (if n < 16 then dict_get LUT n ''#cccccc''
      else if 16 \<le> n \<and> n \<le> 231 then
        (let n' = n - 16;
             r = (n' div 36) mod 6;
             g = (n' div 6) mod 6;
             b = n' mod 6
         in ''#'' @ format_02x (to_255 r) @ format_02x (to_255 g) @ format_02x (to_255 b))
      else if 232 \<le> n \<and> n \<le> 255 then
        (let v = 8 + (n - 232) * 10
         in ''#'' @ format_02x v @ format_02x v @ format_02x v)
      else ''#cccccc'')"

subsection \<open>Notions used to state the properties of the color model\<close>

text \<open>A well-formed color string: \<open>#\<close> followed by exactly six lowercase hexadecimal
  digits. \<open>hex_val\<close> reads a string of such digits as a number, and \<open>rgb24\<close> composes
  three channel values as a 24-bit RGB value. \<open>cube_level\<close> and \<open>gray_level\<close> are the
  channel levels of the color cube and of the grayscale ramp as the specification words
  them.\<close>

definition is_lower_hex :: "char \<Rightarrow> bool" where
  "is_lower_hex c = (c \<in> set ''0123456789abcdef'')"

definition well_formed_color :: "string \<Rightarrow> bool" where
  "well_formed_color s =
     (case s of [] \<Rightarrow> False
      | c # body \<Rightarrow> c = CHR ''#'' \<and> length body = 6 \<and> list_all is_lower_hex body)"

definition hex_digit_val :: "char \<Rightarrow> nat" where
  "hex_digit_val c = (if c \<in> set ''0123456789'' then of_char c - 48 else of_char c - 87)"

definition hex_val :: "string \<Rightarrow> nat" where
  "hex_val s = foldl (\<lambda>a c. 16 * a + hex_digit_val c) 0 s"

definition cube_level :: "int \<Rightarrow> int" where
  "cube_level v = (if v = 0 then 0 else 55 + 40 * v)"

definition gray_level :: "int \<Rightarrow> int" where
  "gray_level n = 8 + 10 * (n - 232)"

definition rgb24 :: "int \<Rightarrow> int \<Rightarrow> int \<Rightarrow> int" where
  "rgb24 r g b = 65536 * r + 256 * g + b"

section \<open>Escape-code interpreter (webviz/ansi.py)\<close>

subsection \<open>The pattern \<open>SGR_RE\<close>\<close>

text \<open>
  \<open>SGR_RE = re.compile(r"\x1b\[([0-9;]*)m")\<close>. \<open>SGR_RE_match\<close> is the match anchored
  at the head of a string: it gives group 1 and the length of the match. The class
  \<open>[0-9;]\<close> does not contain \<open>m\<close>, so the greedy star has one way to succeed: the
  longest run of parameter characters, followed by \<open>m\<close>.
\<close>

definition ESC :: char where
  "ESC = CHR 0x1B"

definition sgr_param_char :: "char \<Rightarrow> bool" where
  "sgr_param_char c = (c \<in> set ''0123456789;'')"

definition SGR_RE_match :: "string \<Rightarrow> (string \<times> nat) option" where
  "SGR_RE_match s =
     (case s of
        e # b # r \<Rightarrow>
          if e = ESC \<and> b = CHR ''['' then
            (let codes = takeWhile sgr_param_char r
             in case drop (length codes) r of
                  m # _ \<Rightarrow> if m = CHR ''m'' then Some (codes, length codes + 3) else None
                | [] \<Rightarrow> None)
          else None
      | _ \<Rightarrow> None)"

lemma SGR_RE_match_length:
  "SGR_RE_match s = Some (codes, n) \<Longrightarrow> 3 \<le> n \<and> n \<le> length s"
proof -
  assume a: "SGR_RE_match s = Some (codes, n)"
  then obtain e b r where s: "s = e # b # r"
    by (cases s; cases "tl s") (auto simp: SGR_RE_match_def)
  define cs where "cs = takeWhile sgr_param_char r"
  have "length cs \<le> length r" by (simp add: cs_def length_takeWhile_le)
  moreover from a have "n = length cs + 3 \<and> drop (length cs) r \<noteq> []"
    by (auto simp: SGR_RE_match_def s cs_def Let_def split: if_splits list.splits)
  ultimately show ?thesis by (auto simp: s)
qed

text \<open>A match object: \<open>m.start()\<close>, \<open>m.end()\<close> and \<open>m.group(1)\<close>.\<close>

record sgr_match =
  m_start :: nat
  m_end :: nat
  group1 :: string

text \<open>
  \<open>SGR_RE.finditer(s)\<close>: the leftmost non-overlapping matches. The scan tries the
  pattern at \<open>pos\<close>; after a match it resumes at the end of the match, otherwise at
  \<open>pos + 1\<close>.
\<close>

function finditer_from :: "string \<Rightarrow> nat \<Rightarrow> sgr_match list" where
  "finditer_from s pos =
     (if length s \<le> pos then []
      else case SGR_RE_match (drop pos s) of
             Some (codes, n) \<Rightarrow>
               \<lparr>m_start = pos, m_end = pos + n, group1 = codes\<rparr> # finditer_from s (pos + n)
           | None \<Rightarrow> finditer_from s (pos + 1))"
  by pat_completeness auto
termination
proof (relation "measure (\<lambda>(s, pos). length s - pos)")
  show "wf (measure (\<lambda>(s, pos). length s - pos))" by simp
next
  fix s :: string and pos :: nat
  assume "\<not> length s \<le> pos"
  then show "((s, pos + 1), (s, pos)) \<in> measure (\<lambda>(s, pos). length s - pos)" by simp
next
  fix s :: string and pos :: nat and x2 :: "string \<times> nat" and codes :: string and n :: nat
  assume a: "\<not> length s \<le> pos" "SGR_RE_match (drop pos s) = Some x2" "(codes, n) = x2"
  then have "3 \<le> n" using SGR_RE_match_length [of "drop pos s" codes n] by simp
  then show "((s, pos + n), (s, pos)) \<in> measure (\<lambda>(s, pos). length s - pos)"
    using a by simp
qed

definition finditer :: "string \<Rightarrow> sgr_match list" where
  "finditer s = finditer_from s 0"

text \<open>
  \<open>SGR_RE.sub("", s)\<close>, the input with every control sequence removed (the source
  takes its length as the visual length of a line).
\<close>

function SGR_RE_sub_empty :: "string \<Rightarrow> string" where
  "SGR_RE_sub_empty s =
     (case s of
        [] \<Rightarrow> []
      | c # cs \<Rightarrow>
          (case SGR_RE_match s of
             Some (codes, n) \<Rightarrow> SGR_RE_sub_empty (drop n s)
           | None \<Rightarrow> c # SGR_RE_sub_empty cs))"
  by pat_completeness auto
termination
proof (relation "measure length")
  show "wf (measure length)" by simp
next
  fix s :: string and c cs
  assume "s = c # cs"
  then show "(cs, s) \<in> measure length" by simp
next
  fix s :: string and c cs and x2 :: "string \<times> nat" and codes :: string and n :: nat
  assume a: "s = c # cs" "SGR_RE_match s = Some x2" "(codes, n) = x2"
  then have "3 \<le> n" using SGR_RE_match_length [of s codes n] by simp
  then show "(drop n s, s) \<in> measure length"
    using a by simp
qed

subsection \<open>Styles, spans and the interpreter state\<close>

record Style =
  bold :: bool
  fg :: "string option"
  bg :: "string option"

text \<open>The field \<open>text\<close> of the source is \<open>span_text\<close> here.\<close>

record Span =
  span_text :: string
  style :: Style

text \<open>\<open>Style()\<close>: not bold, no foreground, no background.\<close>

definition Style_default :: Style where
  "Style_default = \<lparr>bold = False, fg = None, bg = None\<rparr>"

text \<open>The local variables \<open>spans\<close>, \<open>cur\<close> and \<open>buf\<close> of \<open>parse_ansi_to_spans\<close>.
  A span stores a copy of the current style, so later changes of \<open>cur\<close> do not reach
  the spans already emitted.\<close>

record pstate =
  spans :: "Span list"
  cur :: Style
  buf :: "string list"

definition flush :: "pstate \<Rightarrow> pstate" where
  "flush st =
     (if buf st \<noteq> [] then
        st\<lparr>spans := spans st @ [\<lparr>span_text = concat (buf st), style = cur st\<rparr>], buf := []\<rparr>
      else st)"

subsection \<open>The parameter list of one sequence\<close>

text \<open>\<open>codes.split(";")\<close>.\<close>

fun split_on :: "char \<Rightarrow> string \<Rightarrow> string list" where
  "split_on sep [] = [[]]"
| "split_on sep (c # cs) =
     (if c = sep then [] # split_on sep cs
      else (case split_on sep cs of p # ps \<Rightarrow> (c # p) # ps | [] \<Rightarrow> [[c]]))"

text \<open>\<open>p.isdigit()\<close> on pieces of group 1, whose characters are ASCII digits: a piece
  is a number when it is not empty.\<close>

definition is_ascii_digit :: "char \<Rightarrow> bool" where
  "is_ascii_digit c = (c \<in> set ''0123456789'')"

definition isdigit :: "string \<Rightarrow> bool" where
  "isdigit p = (p \<noteq> [] \<and> list_all is_ascii_digit p)"

text \<open>
  \<open>int(p)\<close> on a string of ASCII digits. The interpreter refuses to convert more than
  \<open>sys.int_max_str_digits\<close> digits, 4300 unless configured otherwise, with a
  \<open>ValueError\<close>; leading zeros count.
\<close>

definition int_max_str_digits :: nat where
  "int_max_str_digits = 4300"

definition int_of_digits :: "string \<Rightarrow> error + int" where
  "int_of_digits p =
     (if int_max_str_digits < length p then Inl ValueError
      else Inr (foldl (\<lambda>a c. 10 * a + (int (of_char c) - 48)) 0 p))"

text \<open>\<open>[int(p) for p in ps]\<close>: the first conversion that fails ends the comprehension.\<close>

fun ints_of :: "string list \<Rightarrow> error + int list" where
  "ints_of [] = Inr []"
| "ints_of (p # ps) =
     (case int_of_digits p of
        Inl e \<Rightarrow> Inl e
      | Inr n \<Rightarrow> (case ints_of ps of Inl e \<Rightarrow> Inl e | Inr ns \<Rightarrow> Inr (n # ns)))"

definition sgr_parts :: "string \<Rightarrow> error + int list" where
  "sgr_parts codes = ints_of (filter isdigit (split_on CHR '';'' codes))"

text \<open>\<open>d.get(c, dflt)\<close> where the default is an optional color.\<close>

definition dict_get_opt :: "('k \<times> 'v) list \<Rightarrow> 'k \<Rightarrow> 'v option \<Rightarrow> 'v option" where
  "dict_get_opt d k dflt = (case map_of d k of Some v \<Rightarrow> Some v | None \<Rightarrow> dflt)"

text \<open>The body of the \<open>while j < len(parts)\<close> loop up to, and without, its final
  \<open>j += 1\<close>: the new state and the value of \<open>j\<close> after the branch.\<close>

definition sgr_param_step :: "int list \<Rightarrow> nat \<Rightarrow> pstate \<Rightarrow> pstate \<times> nat" where
  "sgr_param_step parts j st =
     (let c = parts ! j in
      if c = 0 then ((flush st)\<lparr>cur := Style_default\<rparr>, j)
      else if c = 1 then
        (let st' = flush st in (st'\<lparr>cur := (cur st')\<lparr>bold := True\<rparr>\<rparr>, j))
      else if (30 \<le> c \<and> c \<le> 37) \<or> (90 \<le> c \<and> c \<le> 97) then
        (let st' = flush st
         in (st'\<lparr>cur := (cur st')\<lparr>fg := dict_get_opt BASIC_COLORS c (fg (cur st'))\<rparr>\<rparr>, j))
      else if (40 \<le> c \<and> c \<le> 47) \<or> (100 \<le> c \<and> c \<le> 107) then
        (let st' = flush st
         in (st'\<lparr>cur := (cur st')\<lparr>bg := dict_get_opt BASIC_BG c (bg (cur st'))\<rparr>\<rparr>, j))
      else if c = 38 \<and> j + 2 < length parts \<and> parts ! (j + 1) = 5 then
        (let st' = flush st
         in (st'\<lparr>cur := (cur st')\<lparr>fg := Some (xterm_256_to_hex (parts ! (j + 2)))\<rparr>\<rparr>, j + 2))
      else if c = 48 \<and> j + 2 < length parts \<and> parts ! (j + 1) = 5 then
        (let st' = flush st
         in (st'\<lparr>cur := (cur st')\<lparr>bg := Some (xterm_256_to_hex (parts ! (j + 2)))\<rparr>\<rparr>, j + 2))
      else (st, j))"

lemma sgr_param_step_index: "sgr_param_step parts j st = (st', j') \<Longrightarrow> j \<le> j'"
  by (auto simp: sgr_param_step_def Let_def split: if_splits)

function sgr_params :: "int list \<Rightarrow> nat \<Rightarrow> pstate \<Rightarrow> pstate" where
  "sgr_params parts j st =
     (if j < length parts then
        (case sgr_param_step parts j st of (st', j') \<Rightarrow> sgr_params parts (j' + 1) st')
      else st)"
  by pat_completeness auto
termination
proof (relation "measure (\<lambda>(parts, j, st). length parts - j)")
  show "wf (measure (\<lambda>(parts, j, st). length parts - j))" by simp
next
  fix parts :: "int list" and j :: nat and st st' :: pstate and j' :: nat
  assume a: "j < length parts" "(st', j') = sgr_param_step parts j st"
  then have "j \<le> j'" using sgr_param_step_index [of parts j st st' j'] by simp
  then show "((parts, j' + 1, st'), (parts, j, st)) \<in> measure (\<lambda>(parts, j, st). length parts - j)"
    using a by simp
qed

subsection \<open>\<open>parse_ansi_to_spans\<close>\<close>

text \<open>Python's slice \<open>s[i:j]\<close> for non-negative \<open>i\<close> and \<open>j\<close>.\<close>

definition slice :: "'a list \<Rightarrow> nat \<Rightarrow> nat \<Rightarrow> 'a list" where
  "slice s i j = take (j - i) (drop i s)"

text \<open>One round of \<open>for m in SGR_RE.finditer(s)\<close>, on the pair of \<open>i\<close> and the state.
  The round fails when a parameter cannot be converted.\<close>

definition sgr_match_step ::
  "string \<Rightarrow> sgr_match \<Rightarrow> nat \<times> pstate \<Rightarrow> error + nat \<times> pstate" where
  "sgr_match_step s m ist =
     (case ist of (i, st) \<Rightarrow>
        (let chunk = slice s i (m_start m);
             st1 = (if chunk \<noteq> [] then st\<lparr>buf := buf st @ [chunk]\<rparr> else st);
             codes = group1 m
         in if codes = [] \<or> codes = ''0'' then
              Inr (m_end m, (flush st1)\<lparr>cur := Style_default\<rparr>)
            else
              (case sgr_parts codes of
                 Inl e \<Rightarrow> Inl e
               | Inr parts \<Rightarrow> Inr (m_end m, sgr_params parts 0 st1))))"

text \<open>The loop over the matches: the first round that fails ends it.\<close>

fun sgr_loop :: "string \<Rightarrow> sgr_match list \<Rightarrow> nat \<times> pstate \<Rightarrow> error + nat \<times> pstate" where
  "sgr_loop s [] ist = Inr ist"
| "sgr_loop s (m # ms) ist =
     (case sgr_match_step s m ist of
        Inl e \<Rightarrow> Inl e
      | Inr ist' \<Rightarrow> sgr_loop s ms ist')"

definition parse_ansi_to_spans :: "string \<Rightarrow> error + Span list" where
  "parse_ansi_to_spans s =
     (case sgr_loop s (finditer s) (0, \<lparr>spans = [], cur = Style_default, buf = []\<rparr>) of
        Inl e \<Rightarrow> Inl e
      | Inr (i, st) \<Rightarrow>
          (let st' = (if i < length s then st\<lparr>buf := buf st @ [drop i s]\<rparr> else st)
           in Inr (spans (flush st'))))"

subsection \<open>Notions used to state the properties of the interpreter\<close>

text \<open>The text a state holds: the spans emitted so far, then the open buffer. \<open>finish\<close>
  is the end of \<open>parse_ansi_to_spans\<close>, after the loop over the matches.\<close>

definition state_text :: "pstate \<Rightarrow> string" where
  "state_text st = concat (map span_text (spans st)) @ concat (buf st)"

definition finish :: "string \<Rightarrow> nat \<times> pstate \<Rightarrow> Span list" where
  "finish s ist =
     (case ist of (i, st) \<Rightarrow>
        (let st' = (if i < length s then st\<lparr>buf := buf st @ [drop i s]\<rparr> else st)
         in spans (flush st')))"

text \<open>A control sequence is convertible when none of the pieces between its semicolons
  is longer than the digit limit of \<open>int\<close>, and a line is when all its control sequences
  are.\<close>

definition short_piece :: "string \<Rightarrow> bool" where
  "short_piece p = (length p \<le> int_max_str_digits)"

definition convertible :: "string \<Rightarrow> bool" where
  "convertible codes = list_all short_piece (split_on CHR '';'' codes)"

definition convertible_line :: "string \<Rightarrow> bool" where
  "convertible_line s = list_all (\<lambda>m. convertible (group1 m)) (finditer s)"

text \<open>A line contains a control sequence when the pattern matches at some position.\<close>

definition has_sgr :: "string \<Rightarrow> bool" where
  "has_sgr s = list_ex (\<lambda>pos. SGR_RE_match (drop pos s) \<noteq> None) [0..<length s]"

text \<open>An extended-color marker at the head of a parameter list is malformed when it is
  not followed, in the same list, by the palette selector 5 and a palette index.\<close>

definition malformed_extended :: "int \<Rightarrow> int list \<Rightarrow> bool" where
  "malformed_extended c rest =
     ((c = 38 \<or> c = 48) \<and> \<not> (2 \<le> length rest \<and> hd rest = 5))"

section \<open>Frame headers, frame splitting and metrics (webviz/ansi.py)\<close>

subsection \<open>String operations of Python\<close>

text \<open>
  \<open>str.isspace\<close> of one character, which is also the class \<open>\s\<close> of a \<open>str\<close>
  pattern: tab to carriage return, the separators \<open>0x1C..0x1F\<close>, space, \<open>0x85\<close> and
  \<open>0xA0\<close>. The class \<open>\d\<close> is \<open>0..9\<close> on the code points below 256.
\<close>

definition isspace :: "char \<Rightarrow> bool" where
  "isspace c =
     (let n = (of_char c :: nat)
      in (9 \<le> n \<and> n \<le> 13) \<or> (28 \<le> n \<and> n \<le> 32) \<or> n = 133 \<or> n = 160)"

definition lstrip :: "string \<Rightarrow> string" where
  "lstrip s = dropWhile isspace s"

definition rstrip :: "string \<Rightarrow> string" where
  "rstrip s = rev (dropWhile isspace (rev s))"

definition strip :: "string \<Rightarrow> string" where
  "strip s = rstrip (lstrip s)"

text \<open>\<open>str.lower\<close> on the code points below 256: the ASCII capitals and the Latin-1
  capitals \<open>0xC0..0xDE\<close> without the multiplication sign \<open>0xD7\<close>.\<close>

definition lower_char :: "char \<Rightarrow> char" where
  "lower_char c =
     (let n = (of_char c :: nat)
      in if (65 \<le> n \<and> n \<le> 90) \<or> (192 \<le> n \<and> n \<le> 222 \<and> n \<noteq> 215) then char_of (n + 32)
         else c)"

definition lower :: "string \<Rightarrow> string" where
  "lower s = map lower_char s"

text \<open>\<open>s.startswith(p)\<close> and \<open>p in s\<close>.\<close>

fun startswith :: "string \<Rightarrow> string \<Rightarrow> bool" where
  "startswith s [] = True"
| "startswith [] (p # ps) = False"
| "startswith (c # cs) (p # ps) = (c = p \<and> startswith cs ps)"

fun contains :: "string \<Rightarrow> string \<Rightarrow> bool" where
  "contains [] p = (p = [])"
| "contains (c # cs) p = (startswith (c # cs) p \<or> contains cs p)"

text \<open>
  \<open>str.splitlines\<close>: a line ends at \<open>\n\<close>, \<open>\r\<close>, \<open>\r\n\<close>, \<open>\v\<close>, \<open>\f\<close>,
  \<open>0x1C\<close>, \<open>0x1D\<close>, \<open>0x1E\<close> or \<open>0x85\<close>; the line ends are dropped, and there is
  no empty last line after a final line end.
\<close>

definition is_linebreak :: "char \<Rightarrow> bool" where
  "is_linebreak c =
     (let n = (of_char c :: nat) in (10 \<le> n \<and> n \<le> 13) \<or> (28 \<le> n \<and> n \<le> 30) \<or> n = 133)"

fun splitlines_from :: "string \<Rightarrow> string \<Rightarrow> string list" where
  "splitlines_from acc [] = (if acc = [] then [] else [acc])"
| "splitlines_from acc [c] = (if is_linebreak c then [acc] else [acc @ [c]])"
| "splitlines_from acc (c # d # ds) =
     (if c = CHR 0x0D \<and> d = CHR 0x0A then acc # splitlines_from [] ds
      else if is_linebreak c then acc # splitlines_from [] (d # ds)
      else splitlines_from (acc @ [c]) (d # ds))"

definition splitlines :: "string \<Rightarrow> string list" where
  "splitlines s = splitlines_from [] s"

text \<open>\<open>"\n".join(xs)\<close>.\<close>

fun join_lines :: "string list \<Rightarrow> string" where
  "join_lines [] = []"
| "join_lines [x] = x"
| "join_lines (x # y # ys) = x @ [CHR 0x0A] @ join_lines (y # ys)"

subsection \<open>Pieces of the header patterns\<close>

text \<open>
  The header patterns are compiled with \<open>re.I\<close>. On code points below 256 a literal
  ASCII letter of a pattern matches its two ASCII cases, and any other literal
  matches itself. Each piece takes the rest of the subject and gives the rest after the
  piece, or \<open>None\<close> when the piece does not match.
\<close>

definition ascii_lower :: "char \<Rightarrow> char" where
  "ascii_lower c =
     (let n = (of_char c :: nat) in if 65 \<le> n \<and> n \<le> 90 then char_of (n + 32) else c)"

fun lit_ci :: "string \<Rightarrow> string \<Rightarrow> string option" where
  "lit_ci [] s = Some s"
| "lit_ci (p # ps) [] = None"
| "lit_ci (p # ps) (c # cs) = (if ascii_lower c = ascii_lower p then lit_ci ps cs else None)"

text \<open>A case-sensitive literal, for the patterns compiled without \<open>re.I\<close>.\<close>

definition lit :: "string \<Rightarrow> string \<Rightarrow> string option" where
  "lit p s = (if startswith s p then Some (drop (length p) s) else None)"

text \<open>An optional literal \<open>(?:p)?\<close>: taken when it is there.\<close>

definition opt_lit_ci :: "string \<Rightarrow> string \<Rightarrow> string" where
  "opt_lit_ci p s = (case lit_ci p s of Some r \<Rightarrow> r | None \<Rightarrow> s)"

definition opt_lit :: "string \<Rightarrow> string \<Rightarrow> string" where
  "opt_lit p s = (case lit p s of Some r \<Rightarrow> r | None \<Rightarrow> s)"

text \<open>\<open>\s*\<close>, \<open>\s+\<close> and the group \<open>(\d+)\<close>. What follows each of them in the patterns
  cannot begin with a character of the class, so the longest run is the only way to
  match.\<close>

definition ws_star :: "string \<Rightarrow> string" where
  "ws_star s = dropWhile isspace s"

definition ws_plus :: "string \<Rightarrow> string option" where
  "ws_plus s = (case s of [] \<Rightarrow> None | c # cs \<Rightarrow> if isspace c then Some (dropWhile isspace cs) else None)"

definition digits1 :: "string \<Rightarrow> (string \<times> string) option" where
  "digits1 s =
     (let d = takeWhile is_ascii_digit s
      in if d = [] then None else Some (d, drop (length d) s))"

subsection \<open>\<open>STEP_HDR_VARIANTS\<close> and \<open>is_step_header\<close>\<close>

text \<open>
  The common head of both variants,
  \<open>^(?:\x1b\[1m)?Step\s+(\d+)\x1b\[0m?:\<close>. In \<open>\x1b\[0m?\<close> the question mark belongs
  to the \<open>m\<close> alone: the characters \<open>ESC [ 0\<close> are required after the step number.
\<close>

definition step_hdr_head :: "string \<Rightarrow> (string \<times> string) option" where
  "step_hdr_head s =
     do {
       s1 \<leftarrow> lit_ci ''Step'' (opt_lit_ci (ESC # ''[1m'') s);
       s2 \<leftarrow> ws_plus s1;
       (g1, s3) \<leftarrow> digits1 s2;
       s4 \<leftarrow> lit_ci (ESC # ''[0'') s3;
       s5 \<leftarrow> lit_ci '':'' (opt_lit_ci ''m'' s4);
       Some (g1, s5)
     }"

text \<open>Variant A, \<open>...:\s*Burning\s*cells\s*=\s*(\d+)\<close>, and variant B,
  \<open>...:\s*Burning\s*=\s*(\d+)\<close>: the two groups of a match at the start of the subject.\<close>

definition STEP_HDR_A :: "string \<Rightarrow> (string \<times> string) option" where
  "STEP_HDR_A s =
     do {
       (g1, s5) \<leftarrow> step_hdr_head s;
       s6 \<leftarrow> lit_ci ''Burning'' (ws_star s5);
       s7 \<leftarrow> lit_ci ''cells'' (ws_star s6);
       s8 \<leftarrow> lit_ci ''='' (ws_star s7);
       (g2, s9) \<leftarrow> digits1 (ws_star s8);
       Some (g1, g2)
     }"

definition STEP_HDR_B :: "string \<Rightarrow> (string \<times> string) option" where
  "STEP_HDR_B s =
     do {
       (g1, s5) \<leftarrow> step_hdr_head s;
       s6 \<leftarrow> lit_ci ''Burning'' (ws_star s5);
       s7 \<leftarrow> lit_ci ''='' (ws_star s6);
       (g2, s8) \<leftarrow> digits1 (ws_star s7);
       Some (g1, g2)
     }"

definition STEP_HDR_VARIANTS :: "(string \<Rightarrow> (string \<times> string) option) list" where
  "STEP_HDR_VARIANTS = [STEP_HDR_A, STEP_HDR_B]"

text \<open>\<open>is_step_header\<close>: the first variant that matches the stripped line decides. When
  \<open>int\<close> fails on one of its groups, the \<open>except\<close> branch returns \<open>None\<close> without
  trying the other variant.\<close>

fun first_match :: "(string \<Rightarrow> (string \<times> string) option) list \<Rightarrow> string \<Rightarrow> (int \<times> int) option" where
  "first_match [] s = None"
| "first_match (rx # rxs) s =
     (case rx s of
        Some (g1, g2) \<Rightarrow>
          (case (int_of_digits g1, int_of_digits g2) of
             (Inr n1, Inr n2) \<Rightarrow> Some (n1, n2)
           | _ \<Rightarrow> None)
      | None \<Rightarrow> first_match rxs s)"

definition is_step_header :: "string \<Rightarrow> (int \<times> int) option" where
  "is_step_header line = first_match STEP_HDR_VARIANTS (strip line)"

subsection \<open>\<open>split_frames_by_headers\<close>\<close>

definition split_frames_by_headers :: "string \<Rightarrow> string list" where
  "split_frames_by_headers raw_text =
     (let lines = splitlines raw_text;
          idx = filter (\<lambda>i. is_step_header (lines ! i) \<noteq> None) [0..<length lines]
      in if idx = [] then []
         else
           (let idx' = idx @ [length lines];
                blocks = map (\<lambda>(s, e). rstrip (join_lines (slice lines s e)))
                             (zip (butlast idx') (tl idx'))
            in filter (\<lambda>block. block \<noteq> []) blocks))"

subsection \<open>\<open>parse_metrics\<close>\<close>

text \<open>\<open>re.search\<close>: the first position, from the left, where the pattern matches.\<close>

fun re_search :: "(string \<Rightarrow> 'a option) \<Rightarrow> string \<Rightarrow> 'a option" where
  "re_search rx [] = rx []"
| "re_search rx (c # cs) = (case rx (c # cs) of Some r \<Rightarrow> Some r | None \<Rightarrow> re_search rx cs)"

text \<open>The three patterns of the body lines, each giving its group 1:
  \<open>(\d+)\<close>, \<open>extinguished\s*=\s*(\d+)\<close> and
  \<open>(?:natural|natural burnouts)\s*=?\s*(\d+)\<close>. In the last one the second
  alternative is tried when the first one, with the rest of the pattern, fails.\<close>

definition rx_number :: "string \<Rightarrow> string option" where
  "rx_number s = map_option fst (digits1 s)"

definition rx_extinguished :: "string \<Rightarrow> string option" where
  "rx_extinguished s =
     do {
       s1 \<leftarrow> lit ''extinguished'' s;
       s2 \<leftarrow> lit ''='' (ws_star s1);
       map_option fst (digits1 (ws_star s2))
     }"

definition rx_natural_tail :: "string \<Rightarrow> string option" where
  "rx_natural_tail s = map_option fst (digits1 (ws_star (opt_lit ''='' (ws_star s))))"

definition rx_natural :: "string \<Rightarrow> string option" where
  "rx_natural s =
     (case Option.bind (lit ''natural'' s) rx_natural_tail of
        Some g \<Rightarrow> Some g
      | None \<Rightarrow> Option.bind (lit ''natural burnouts'' s) rx_natural_tail)"

text \<open>\<open>int(m.group(1)) if m else old\<close>; the conversion can fail.\<close>

definition int_or :: "string option \<Rightarrow> int option \<Rightarrow> error + int option" where
  "int_or m old =
     (case m of
        Some g \<Rightarrow> (case int_of_digits g of Inl e \<Rightarrow> Inl e | Inr n \<Rightarrow> Inr (Some n))
      | None \<Rightarrow> Inr old)"

text \<open>One round of \<open>for ln in lines[1:6]\<close> on the pair \<open>(nb, ex)\<close>: its four
  statements in order.\<close>

definition metrics_line ::
  "string \<Rightarrow> int option \<times> int option \<Rightarrow> error + int option \<times> int option" where
  "metrics_line ln' nbex =
     (case nbex of (nb, ex) \<Rightarrow>
        (let s = lower (strip ln')
         in try_bind (if startswith s ''natural burnouts''
                      then int_or (re_search rx_number s) nb else Inr nb) (\<lambda>nb1.
            try_bind (if startswith s ''extinguished by agents''
                      then int_or (re_search rx_number s) ex else Inr ex) (\<lambda>ex1.
            try_bind (if contains s ''extinguished=''
                      then int_or (re_search rx_extinguished s) ex1 else Inr ex1) (\<lambda>ex2.
            try_bind (if contains s ''natural burnouts'' \<or> contains s ''natural=''
                      then int_or (re_search rx_natural s) nb1 else Inr nb1) (\<lambda>nb2.
            Inr (nb2, ex2)))))))"

fun metrics_lines ::
  "string list \<Rightarrow> int option \<times> int option \<Rightarrow> error + int option \<times> int option" where
  "metrics_lines [] nbex = Inr nbex"
| "metrics_lines (l # ls) nbex = try_bind (metrics_line l nbex) (metrics_lines ls)"

text \<open>The values that one frame adds to the three lists.\<close>

definition block_metrics :: "string \<Rightarrow> error + int option \<times> int option \<times> int option" where
  "block_metrics block =
     (let lines = splitlines block;
          b = (case lines of [] \<Rightarrow> None
               | l # _ \<Rightarrow> (case is_step_header l of Some hdr \<Rightarrow> Some (snd hdr) | None \<Rightarrow> None))
      in try_bind (metrics_lines (slice lines 1 6) (None, None))
           (\<lambda>nbex. Inr (b, fst nbex, snd nbex)))"

record metrics_dict =
  burning_cells :: "int option list"
  natural_burnouts :: "int option list"
  extinguished_cum :: "int option list"

text \<open>The loop over the frames, on the three lists, and \<open>parse_metrics\<close>.\<close>

fun metrics_loop :: "string list \<Rightarrow> metrics_dict \<Rightarrow> error + metrics_dict" where
  "metrics_loop [] m = Inr m"
| "metrics_loop (block # blocks) m =
     try_bind (block_metrics block)
       (\<lambda>(b, nb, ex).
          metrics_loop blocks
            \<lparr>burning_cells = burning_cells m @ [b],
             natural_burnouts = natural_burnouts m @ [nb],
             extinguished_cum = extinguished_cum m @ [ex]\<rparr>)"

definition parse_metrics :: "string list \<Rightarrow> error + metrics_dict" where
  "parse_metrics frames =
     metrics_loop frames \<lparr>burning_cells = [], natural_burnouts = [], extinguished_cum = []\<rparr>"

section \<open>Index files and the frame store (webviz/ansi.py)\<close>

subsection \<open>Files, decoding and JSON values\<close>

text \<open>
  The world outside the program is a record: \<open>files\<close> gives what a path names, a
  regular file with its bytes or a directory (\<open>None\<close> when nothing has that name),
  \<open>utf8\<close> is strict UTF-8 decoding (\<open>None\<close> for \<open>UnicodeDecodeError\<close>),
  \<open>utf8_replace\<close> is decoding with \<open>errors="replace"\<close>, and \<open>json_loads\<close> is
  \<open>json.loads\<close>, which gives a value or the exception that it raises. Every theorem
  below holds for all such functions. A regular file can be opened; permissions are not
  modelled. An object is the list of its keys and values, each key once.
\<close>

datatype fs_entry = File string | Dir

text \<open>A float is kept as its truth value (\<open>True\<close> when it is not zero): nothing else of a
  float is observed by \<open>load_index_jsonl\<close>.\<close>

datatype json =
    JNull
  | JBool bool
  | JInt int
  | JFloat bool
  | JString string
  | JArray "json list"
  | JObject "(string \<times> json) list"

record env =
  files :: "string \<Rightarrow> fs_entry option"
  utf8 :: "string \<Rightarrow> string option"
  utf8_replace :: "string \<Rightarrow> string"
  json_loads :: "string \<Rightarrow> error + json"

text \<open>\<open>os.path.isfile\<close>, and \<open>open\<close> for reading, which gives the bytes of a regular
  file.\<close>

definition isfile :: "env \<Rightarrow> string \<Rightarrow> bool" where
  "isfile ev path = (case files ev path of Some (File bytes) \<Rightarrow> True | _ \<Rightarrow> False)"

definition open_read :: "env \<Rightarrow> string \<Rightarrow> error + string" where
  "open_read ev path =
     (case files ev path of
        None \<Rightarrow> Inl (FileNotFoundError path)
      | Some Dir \<Rightarrow> Inl (IsADirectoryError path)
      | Some (File bytes) \<Rightarrow> Inr bytes)"

text \<open>Text mode translates \<open>\r\n\<close> and \<open>\r\<close> to \<open>\n\<close>.\<close>

fun universal_newlines :: "string \<Rightarrow> string" where
  "universal_newlines [] = []"
| "universal_newlines [c] = (if c = CHR 0x0D then [CHR 0x0A] else [c])"
| "universal_newlines (c # d # ds) =
     (if c = CHR 0x0D \<and> d = CHR 0x0A then CHR 0x0A # universal_newlines ds
      else if c = CHR 0x0D then CHR 0x0A # universal_newlines (d # ds)
      else c # universal_newlines (d # ds))"

text \<open>\<open>open(path, "r", encoding="utf-8")\<close> followed by reading the whole text.\<close>

definition open_read_text :: "env \<Rightarrow> string \<Rightarrow> error + string" where
  "open_read_text ev path =
     try_bind (open_read ev path)
       (\<lambda>bytes. case utf8 ev bytes of
                   None \<Rightarrow> Inl UnicodeDecodeError
                 | Some txt \<Rightarrow> Inr (universal_newlines txt))"

text \<open>\<open>for line in f\<close>: the lines of the text, each with its final \<open>\n\<close>.\<close>

fun text_lines_from :: "string \<Rightarrow> string \<Rightarrow> string list" where
  "text_lines_from acc [] = (if acc = [] then [] else [acc])"
| "text_lines_from acc (c # cs) =
     (if c = CHR 0x0A then (acc @ [c]) # text_lines_from [] cs
      else text_lines_from (acc @ [c]) cs)"

definition text_lines :: "string \<Rightarrow> string list" where
  "text_lines txt = text_lines_from [] txt"

subsection \<open>Python values in \<open>load_index_jsonl\<close>\<close>

text \<open>Truth value, \<open>a or b\<close>, \<open>obj.get(k)\<close>, \<open>k in obj\<close> and \<open>isinstance(x, int)\<close>,
  which holds for \<open>bool\<close> as well: \<open>True\<close> and \<open>False\<close> are the integers 1 and 0.\<close>

fun truthy :: "json \<Rightarrow> bool" where
  "truthy JNull = False"
| "truthy (JBool b) = b"
| "truthy (JInt n) = (n \<noteq> 0)"
| "truthy (JFloat nz) = nz"
| "truthy (JString s) = (s \<noteq> [])"
| "truthy (JArray xs) = (xs \<noteq> [])"
| "truthy (JObject kv) = (kv \<noteq> [])"

definition py_or :: "json \<Rightarrow> json \<Rightarrow> json" where
  "py_or a b = (if truthy a then a else b)"

definition obj_get :: "(string \<times> json) list \<Rightarrow> string \<Rightarrow> json" where
  "obj_get kv k = (case map_of kv k of Some v \<Rightarrow> v | None \<Rightarrow> JNull)"

definition has_key :: "(string \<times> json) list \<Rightarrow> string \<Rightarrow> bool" where
  "has_key kv k = (map_of kv k \<noteq> None)"

fun as_int :: "json \<Rightarrow> int option" where
  "as_int (JInt n) = Some n"
| "as_int (JBool b) = Some (if b then 1 else 0)"
| "as_int _ = None"

fun is_float :: "json \<Rightarrow> bool" where
  "is_float (JFloat nz) = True"
| "is_float _ = False"

text \<open>
  An integer converts to a float when it rounds to a finite double, that is when its
  absolute value is below \<open>2^1024 - 2^970\<close>; otherwise the conversion raises
  \<open>OverflowError\<close>.
\<close>

definition float_overflow :: "int \<Rightarrow> bool" where
  "float_overflow n = (2 ^ 1024 - 2 ^ 970 \<le> \<bar>n\<bar>)"

text \<open>\<open>a - b\<close>, as far as \<open>isinstance(_, int)\<close> sees the result: \<open>Some\<close> of the
  difference of two integers; for a float and a number \<open>None\<close>, the float that the
  difference is, unless the number is an integer too large for a float; \<open>TypeError\<close>
  for anything else.\<close>

definition py_sub :: "json \<Rightarrow> json \<Rightarrow> error + int option" where
  "py_sub a b =
     (case (as_int a, as_int b) of
        (Some x, Some y) \<Rightarrow> Inr (Some (x - y))
      | (Some x, None) \<Rightarrow>
          if is_float b then (if float_overflow x then Inl OverflowError else Inr None)
          else Inl TypeError
      | (None, Some y) \<Rightarrow>
          if is_float a then (if float_overflow y then Inl OverflowError else Inr None)
          else Inl TypeError
      | (None, None) \<Rightarrow> if is_float a \<and> is_float b then Inr None else Inl TypeError)"

subsection \<open>\<open>IndexEntry\<close> and \<open>load_index_jsonl\<close>\<close>

text \<open>The field \<open>length\<close> of the source is \<open>length'\<close> here.\<close>

record IndexEntry =
  offset :: int
  length' :: int

text \<open>The body of the loop after \<open>obj = json.loads(line)\<close>: an error, or the entry to
  append, if any. \<open>obj.get\<close> exists on a dictionary only.\<close>

definition index_record :: "json \<Rightarrow> error + IndexEntry option" where
  "index_record obj =
     (case obj of
        JObject kv \<Rightarrow>
          (let off = py_or (py_or (obj_get kv ''offset'') (obj_get kv ''start'')) (JInt 0);
               ln1 = py_or (obj_get kv ''length'') (obj_get kv ''len'')
           in case (if ln1 = JNull \<and> has_key kv ''end'' then py_sub (obj_get kv ''end'') off
                    else Inr (as_int ln1)) of
                Inl e \<Rightarrow> Inl e
              | Inr ln2 \<Rightarrow>
                  (case (as_int off, ln2) of
                     (Some o1, Some l1) \<Rightarrow> Inr (Some \<lparr>offset = o1, length' = l1\<rparr>)
                   | _ \<Rightarrow> Inr None))
      | _ \<Rightarrow> Inl AttributeError)"

fun index_loop :: "env \<Rightarrow> string list \<Rightarrow> IndexEntry list \<Rightarrow> error + IndexEntry list" where
  "index_loop ev [] entries = Inr entries"
| "index_loop ev (line # rest) entries =
     (if strip line = [] then index_loop ev rest entries
      else case json_loads ev line of
             Inl e \<Rightarrow> Inl e
           | Inr obj \<Rightarrow>
               (case index_record obj of
                  Inl e \<Rightarrow> Inl e
                | Inr None \<Rightarrow> index_loop ev rest entries
                | Inr (Some ent) \<Rightarrow> index_loop ev rest (entries @ [ent])))"

definition load_index_jsonl :: "env \<Rightarrow> string \<Rightarrow> error + IndexEntry list" where
  "load_index_jsonl ev path =
     (case open_read_text ev path of
        Inl e \<Rightarrow> Inl e
      | Inr txt \<Rightarrow> index_loop ev (text_lines txt) [])"

subsection \<open>\<open>FrameSource\<close>\<close>

record FrameSource =
  ans_path :: string
  indexed :: bool
  frames :: "string list"
  entries :: "IndexEntry list"

text \<open>\<open>FrameSource.__init__\<close>. An index path counts when it is given, not empty, and
  names a file.\<close>

definition FrameSource_init :: "env \<Rightarrow> string \<Rightarrow> string option \<Rightarrow> error + FrameSource" where
  "FrameSource_init ev path index_jsonl =
     (case (case index_jsonl of
              Some ip \<Rightarrow> if ip \<noteq> [] \<and> isfile ev ip then load_index_jsonl ev ip else Inr []
            | None \<Rightarrow> Inr []) of
        Inl e \<Rightarrow> Inl e
      | Inr ents \<Rightarrow>
          if ents \<noteq> [] then
            Inr \<lparr>ans_path = path, indexed = True, frames = [], entries = ents\<rparr>
          else
            (case open_read_text ev path of
               Inl e \<Rightarrow> Inl e
             | Inr raw \<Rightarrow>
                 Inr \<lparr>ans_path = path, indexed = False,
                      frames = split_frames_by_headers raw, entries = ents\<rparr>))"

text \<open>\<open>__len__\<close>.\<close>

definition FrameSource_len :: "FrameSource \<Rightarrow> nat" where
  "FrameSource_len src = (if indexed src then length (entries src) else length (frames src))"

text \<open>Python's \<open>xs[i]\<close>: a negative index counts from the end, and an index outside
  \<open>-len(xs) .. len(xs) - 1\<close> raises \<open>IndexError\<close>.\<close>

definition py_index :: "'a list \<Rightarrow> int \<Rightarrow> error + 'a" where
  "py_index xs i =
     (let n = int (length xs)
      in if 0 \<le> i \<and> i < n then Inr (xs ! nat i)
         else if - n \<le> i \<and> i < 0 then Inr (xs ! nat (n + i))
         else Inl IndexError)"

text \<open>
  \<open>open(path, "rb")\<close>, \<open>f.seek(offset)\<close> and \<open>f.read(length)\<close> on the bytes of a file.
  An offset that does not fit a signed 64-bit integer is a \<open>ValueError\<close> and a negative
  one an \<open>OSError\<close>; a length that does not fit is an \<open>OverflowError\<close> and one below
  \<open>-1\<close> a \<open>ValueError\<close>. The length \<open>-1\<close> reads to the end, and reading at or
  past the end gives no bytes. The limits of the file system on offsets and of the memory
  on lengths are not modelled.
\<close>

definition fits_int64 :: "int \<Rightarrow> bool" where
  "fits_int64 n = (- (2 ^ 63) \<le> n \<and> n < 2 ^ 63)"

definition seek_read :: "env \<Rightarrow> string \<Rightarrow> int \<Rightarrow> int \<Rightarrow> error + string" where
  "seek_read ev path off len =
     try_bind (open_read ev path)
       (\<lambda>bytes.
          if \<not> fits_int64 off then Inl ValueError
          else if off < 0 then Inl OSError
          else if \<not> fits_int64 len then Inl OverflowError
          else if len < - 1 then Inl ValueError
          else if len = - 1 then Inr (drop (nat off) bytes)
          else Inr (take (nat len) (drop (nat off) bytes)))"

text \<open>\<open>FrameSource.get\<close>, with its 1-based index \<open>k\<close>.\<close>

definition FrameSource_get :: "env \<Rightarrow> FrameSource \<Rightarrow> int \<Rightarrow> error + string" where
  "FrameSource_get ev src k =
     (if indexed src then
        (case py_index (entries src) (k - 1) of
           Inl e \<Rightarrow> Inl e
         | Inr ent \<Rightarrow>
             (case seek_read ev (ans_path src) (offset ent) (length' ent) of
                Inl e \<Rightarrow> Inl e
              | Inr data \<Rightarrow> Inr (utf8_replace ev data)))
      else py_index (frames src) (k - 1))"

section \<open>Markup rendering (webviz/ansi.py)\<close>

text \<open>\<open>sep.join(xs)\<close> and \<open>html.escape\<close>, which replaces \<open>&\<close>, \<open><\<close>, \<open>>\<close>, the double
  quote and the single quote.\<close>

fun join :: "string \<Rightarrow> string list \<Rightarrow> string" where
  "join sep [] = []"
| "join sep [x] = x"
| "join sep (x # y # ys) = x @ sep @ join sep (y # ys)"

definition html_escape_char :: "char \<Rightarrow> string" where
  "html_escape_char c =
     (if c = CHR ''&'' then ''&amp;''
      else if c = CHR ''<'' then ''&lt;''
      else if c = CHR ''>'' then ''&gt;''
      else if c = CHR 0x22 then ''&quot;''
      else if c = CHR 0x27 then ''&#x27;''
      else [c])"

definition html_escape :: "string \<Rightarrow> string" where
  "html_escape s = concat (map html_escape_char s)"

text \<open>An optional color counts when it is there and not empty.\<close>

definition span_html :: "Span \<Rightarrow> string" where
  "span_html sp =
     (let txt = html_escape (span_text sp);
          fg_bits = (case fg (style sp) of
                       Some col \<Rightarrow> if col \<noteq> [] then [''color:'' @ col] else []
                     | None \<Rightarrow> []);
          bg_bits = (case bg (style sp) of
                       Some col \<Rightarrow> if col \<noteq> [] then [''background-color:'' @ col] else []
                     | None \<Rightarrow> []);
          bold_bits = (if bold (style sp) then [''font-weight:bold''] else []);
          style_bits = fg_bits @ bg_bits @ bold_bits;
          style_attr = (if style_bits \<noteq> []
                        then '' style='' @ [CHR 0x22] @ join '';'' style_bits @ [CHR 0x22]
                        else [])
      in ''<span'' @ style_attr @ ''>'' @ txt @ ''</span>'')"

text \<open>The loop over the lines of \<open>ansi_to_html\<close>: a line whose parsing fails ends
  it.\<close>

fun html_lines :: "string list \<Rightarrow> error + string list" where
  "html_lines [] = Inr []"
| "html_lines (line # ls) =
     try_bind (parse_ansi_to_spans line)
       (\<lambda>sps.
          (let parts = concat (map span_html sps)
           in try_bind (html_lines ls)
                (\<lambda>out_lines. Inr ((if parts \<noteq> [] then parts else ''&nbsp;'') # out_lines))))"

definition ansi_to_html :: "string \<Rightarrow> error + string" where
  "ansi_to_html s = try_bind (html_lines (splitlines s)) (\<lambda>out_lines. Inr (join ''<br/>'' out_lines))"

section \<open>The server (webviz/server.py)\<close>

subsection \<open>Requests and the session\<close>

text \<open>The fields of the load request carry the prefix \<open>req_\<close>.\<close>

record LoadReq =
  req_ans_path :: string
  req_index_jsonl :: "string option"
  req_meta_json :: "string option"
  req_agent_status_path :: "string option"

text \<open>\<open>SESSION\<close>, the state shared by the routes. The empty dictionary \<open>{}\<close> that
  \<open>metrics\<close> holds before the first load is \<open>None\<close>.\<close>

record Session =
  source :: "FrameSource option"
  metrics :: "metrics_dict option"
  agent_status :: "string list list"

definition Session_init :: Session where
  "Session_init = \<lparr>source = None, metrics = None, agent_status = []\<rparr>"

subsection \<open>Utilities\<close>

text \<open>\<open>_read_text\<close> of the server checks \<open>os.path.isfile\<close> first.\<close>

definition read_text :: "env \<Rightarrow> string \<Rightarrow> error + string" where
  "read_text ev path =
     (if \<not> isfile ev path then Inl (FileNotFoundError path) else open_read_text ev path)"

text \<open>\<open>_parse_agent_status\<close>: one round of the loop on the pair \<open>(steps, acc)\<close>, and the
  function.\<close>

definition agent_status_line ::
  "string \<Rightarrow> string list list \<times> string list \<Rightarrow> string list list \<times> string list" where
  "agent_status_line line sa =
     (case sa of (steps, acc) \<Rightarrow>
        (let t = strip line
         in if startswith (lower t) ''step '' then
              (if acc \<noteq> [] then (steps @ [acc], []) else (steps, acc))
            else if t \<noteq> [] then (steps, acc @ [t])
            else (steps, acc)))"

definition parse_agent_status :: "string \<Rightarrow> string list list" where
  "parse_agent_status txt =
     (case fold agent_status_line (splitlines txt) ([], []) of
        (steps, acc) \<Rightarrow> if acc \<noteq> [] then steps @ [acc] else steps)"

text \<open>\<open>os.path.splitext\<close> on a POSIX path: the extension starts at the last dot of the
  last component, unless only dots precede it there.\<close>

definition rfind :: "char \<Rightarrow> string \<Rightarrow> int" where
  "rfind c s =
     (case filter (\<lambda>i. s ! i = c) (rev [0..<length s]) of
        [] \<Rightarrow> - 1
      | i # _ \<Rightarrow> int i)"

definition splitext :: "string \<Rightarrow> string \<times> string" where
  "splitext p =
     (let sepIndex = rfind CHR ''/'' p;
          dotIndex = rfind CHR ''.'' p
      in if dotIndex > sepIndex \<and>
            list_ex (\<lambda>i. p ! i \<noteq> CHR ''.'') [nat (sepIndex + 1)..<nat dotIndex]
         then (take (nat dotIndex) p, drop (nat dotIndex) p)
         else (p, []))"

text \<open>\<open>str(n)\<close> for a natural number.\<close>

fun str_nat :: "nat \<Rightarrow> string" where
  "str_nat n =
     (if n < 10 then [''0123456789'' ! n] else str_nat (n div 10) @ [''0123456789'' ! (n mod 10)])"

subsection \<open>\<open>api_load\<close>\<close>

record load_response =
  ok :: bool
  num_frames :: nat
  resp_metrics :: metrics_dict
  has_agent_status :: bool

text \<open>\<open>[src.get(k) for k in ks]\<close>: the first failure ends the comprehension.\<close>

fun get_all :: "env \<Rightarrow> FrameSource \<Rightarrow> int list \<Rightarrow> error + string list" where
  "get_all ev src [] = Inr []"
| "get_all ev src (k # ks) =
     (case FrameSource_get ev src k of
        Inl e \<Rightarrow> Inl e
      | Inr raw \<Rightarrow> (case get_all ev src ks of Inl e \<Rightarrow> Inl e | Inr raws \<Rightarrow> Inr (raw # raws)))"

text \<open>The probe for the sibling index file when the request names none.\<close>

definition probe_index :: "env \<Rightarrow> LoadReq \<Rightarrow> string option" where
  "probe_index ev req =
     (if req_index_jsonl req \<noteq> None \<and> req_index_jsonl req \<noteq> Some [] then req_index_jsonl req
      else
        (let candidate = fst (splitext (req_ans_path req)) @ ''.index.jsonl''
         in if isfile ev candidate then Some candidate else req_index_jsonl req))"

text \<open>The optional agent status, after the session has its new source and metrics: a
  missing file leaves the list empty, any other failure of the read goes on to the
  caller.\<close>

definition load_agent_status :: "env \<Rightarrow> LoadReq \<Rightarrow> error + string list list" where
  "load_agent_status ev req =
     (case req_agent_status_path req of
        None \<Rightarrow> Inr []
      | Some path \<Rightarrow>
          if path = [] then Inr []
          else
            (case read_text ev path of
               Inl (FileNotFoundError _) \<Rightarrow> Inr []
             | Inl e \<Rightarrow> Inl e
             | Inr txt \<Rightarrow> Inr (parse_agent_status txt)))"

text \<open>\<open>api_load\<close> takes the session and gives the response, or the exception, together
  with the session it leaves. Only \<open>FileNotFoundError\<close> from the constructor becomes
  the HTTP error 404.\<close>

definition api_load :: "env \<Rightarrow> LoadReq \<Rightarrow> Session \<Rightarrow> (error + load_response) \<times> Session" where
  "api_load ev req sess =
     (case FrameSource_init ev (req_ans_path req) (probe_index ev req) of
        Inl (FileNotFoundError _) \<Rightarrow>
          (Inl (HTTPException 404 (''File not found: '' @ req_ans_path req)), sess)
      | Inl e \<Rightarrow> (Inl e, sess)
      | Inr src \<Rightarrow>
          if FrameSource_len src = 0 then
            (Inl (HTTPException 400 ''No frames detected in file''), sess)
          else
            (case get_all ev src [1..int (FrameSource_len src)] of
               Inl e \<Rightarrow> (Inl e, sess)
             | Inr raws \<Rightarrow>
                 (case parse_metrics raws of
                    Inl e \<Rightarrow> (Inl e, sess)
                  | Inr m \<Rightarrow>
                      (let sess1 = sess\<lparr>source := Some src, metrics := Some m, agent_status := []\<rparr>
                       in case load_agent_status ev req of
                            Inl e \<Rightarrow> (Inl e, sess1)
                          | Inr st \<Rightarrow>
                              (Inr \<lparr>ok = True, num_frames = FrameSource_len src,
                                    resp_metrics = m, has_agent_status = (st \<noteq> [])\<rparr>,
                               sess1\<lparr>agent_status := st\<rparr>)))))"

subsection \<open>\<open>api_frame\<close>\<close>

text \<open>The keys of the payload carry the prefix \<open>p_\<close>.\<close>

record frame_payload =
  p_index :: int
  p_html :: string
  p_agent_status :: "string list"
  p_burning :: "int option"
  p_natural :: "int option"
  p_ext :: "int option"

text \<open>\<open>SESSION.metrics.get(key, [None] * n)[k - 1]\<close>.\<close>

definition metric_at ::
  "metrics_dict option \<Rightarrow> (metrics_dict \<Rightarrow> int option list) \<Rightarrow> nat \<Rightarrow> int \<Rightarrow> error + int option" where
  "metric_at md key n k =
     py_index (case md of Some m \<Rightarrow> key m | None \<Rightarrow> replicate n None) (k - 1)"

definition api_frame :: "env \<Rightarrow> Session \<Rightarrow> int \<Rightarrow> error + frame_payload" where
  "api_frame ev sess k =
     (case source sess of
        None \<Rightarrow> Inl (HTTPException 400 ''No file loaded'')
      | Some src \<Rightarrow>
          (let n = FrameSource_len src
           in if k < 1 \<or> k > int n then
                Inl (HTTPException 400 (''Frame index out of range 1..'' @ str_nat n))
              else
                try_bind (FrameSource_get ev src k) (\<lambda>raw.
                try_bind (ansi_to_html raw) (\<lambda>html.
                try_bind (metric_at (metrics sess) burning_cells n k) (\<lambda>b.
                try_bind (metric_at (metrics sess) natural_burnouts n k) (\<lambda>nb.
                try_bind (metric_at (metrics sess) extinguished_cum n k) (\<lambda>ex.
                  Inr \<lparr>p_index = k, p_html = html,
                       p_agent_status =
                         (if 0 \<le> k - 1 \<and> k - 1 < int (length (agent_status sess))
                          then agent_status sess ! nat (k - 1) else []),
                       p_burning = b, p_natural = nb, p_ext = ex\<rparr>)))))))"

section \<open>Notions used to state the properties of the store and the server\<close>

text \<open>
  The rules of an index record, worded apart from the loop that applies them. A field of
  a record is given when its value is true for Python: not absent, not null, not false,
  not zero and not empty. The offset of a record is its \<open>offset\<close> when that is given,
  else its \<open>start\<close> when that is given, else 0. Its length is its \<open>length\<close> when that
  is given; else the value of \<open>len\<close> when the record has one that is not null; else
  \<open>end\<close> minus the offset when the record has the key \<open>end\<close>, which is an error when
  the two cannot be subtracted; else nothing. A record gives an entry when its offset and
  its length are both integers, booleans included, and no entry otherwise. A value that
  is not an object is an error.
\<close>

definition record_offset :: "(string \<times> json) list \<Rightarrow> json" where
  "record_offset kv =
     (if truthy (obj_get kv ''offset'') then obj_get kv ''offset''
      else if truthy (obj_get kv ''start'') then obj_get kv ''start''
      else JInt 0)"

definition record_length :: "(string \<times> json) list \<Rightarrow> error + int option" where
  "record_length kv =
     (if truthy (obj_get kv ''length'') then Inr (as_int (obj_get kv ''length''))
      else if obj_get kv ''len'' \<noteq> JNull then Inr (as_int (obj_get kv ''len''))
      else if has_key kv ''end'' then py_sub (obj_get kv ''end'') (record_offset kv)
      else Inr None)"

definition record_entries :: "json \<Rightarrow> error + IndexEntry list" where
  "record_entries obj =
     (case obj of
        JObject kv \<Rightarrow>
          (case record_length kv of
             Inl e \<Rightarrow> Inl e
           | Inr None \<Rightarrow> Inr []
           | Inr (Some l) \<Rightarrow>
               (case as_int (record_offset kv) of
                  Some a \<Rightarrow> Inr [\<lparr>offset = a, length' = l\<rparr>]
                | None \<Rightarrow> Inr []))
      | _ \<Rightarrow> Inl AttributeError)"

text \<open>What one line of an index file gives: nothing when it is blank, the error of
  \<open>json.loads\<close> when it is not JSON, else what the rules give for its value.
  \<open>collect\<close> puts the results of the lines together, in order, and is the first error
  when there is one.\<close>

definition line_result :: "env \<Rightarrow> string \<Rightarrow> error + IndexEntry list" where
  "line_result ev line =
     (if strip line = [] then Inr []
      else case json_loads ev line of
             Inl e \<Rightarrow> Inl e
           | Inr obj \<Rightarrow> record_entries obj)"

fun collect :: "(error + 'a list) list \<Rightarrow> error + 'a list" where
  "collect [] = Inr []"
| "collect (Inl e # rs) = Inl e"
| "collect (Inr xs # rs) = (case collect rs of Inl e \<Rightarrow> Inl e | Inr ys \<Rightarrow> Inr (xs @ ys))"

subsection \<open>A sample world\<close>

text \<open>
  A small file system for the concrete examples: a log of three frames, an index of that
  log, an index with a line that is not JSON, an index whose record has no offset, an
  index whose record has the length 0, an index whose record has \<open>start\<close> and \<open>end\<close>,
  and a log without any header. \<open>sample_utf8\<close> and \<open>sample_json_loads\<close> agree with
  UTF-8 decoding and with \<open>json.loads\<close> on the contents of these files: the files are
  ASCII, and the six records are decoded as \<open>json.loads\<close> decodes them, while
  \<open>not json\<close> is rejected.
\<close>

definition sample_log :: string where
  "sample_log =
     ''Step 1'' @ [ESC] @ ''[0m: Burning cells = 2'' @ [CHR 0x0A] @ ''..'' @ [CHR 0x0A] @
     ''Step 2'' @ [ESC] @ ''[0m: Burning cells = 3'' @ [CHR 0x0A] @ ''##'' @ [CHR 0x0A] @
     ''Step 3'' @ [ESC] @ ''[0m: Burning cells = 1'' @ [CHR 0x0A] @ ''__'' @ [CHR 0x0A]"

definition record_line :: "string \<Rightarrow> string \<Rightarrow> string \<Rightarrow> string \<Rightarrow> string" where
  "record_line k1 v1 k2 v2 =
     ''{'' @ [CHR 0x22] @ k1 @ [CHR 0x22] @ '': '' @ v1 @ '', '' @
       [CHR 0x22] @ k2 @ [CHR 0x22] @ '': '' @ v2 @ ''}''"

definition sample_files :: "string \<Rightarrow> fs_entry option" where
  "sample_files path =
     (if path = ''run.ans'' then Some (File sample_log)
      else if path = ''run.index.jsonl'' then
        Some (File (record_line ''offset'' ''0'' ''length'' ''33'' @ [CHR 0x0A] @
              record_line ''offset'' ''33'' ''length'' ''33'' @ [CHR 0x0A] @
              record_line ''offset'' ''66'' ''length'' ''33'' @ [CHR 0x0A]))
      else if path = ''plain.ans'' then Some (File (''no header here'' @ [CHR 0x0A]))
      else if path = ''bad.index.jsonl'' then
        Some (File (record_line ''offset'' ''0'' ''length'' ''33'' @ [CHR 0x0A] @
                    ''not json'' @ [CHR 0x0A]))
      else if path = ''nooffset.index.jsonl'' then
        Some (File (''{'' @ [CHR 0x22] @ ''length'' @ [CHR 0x22] @ '': 33}'' @ [CHR 0x0A]))
      else if path = ''zero.index.jsonl'' then
        Some (File (record_line ''offset'' ''5'' ''length'' ''0'' @ [CHR 0x0A]))
      else if path = ''end.index.jsonl'' then
        Some (File (record_line ''start'' ''33'' ''end'' ''66'' @ [CHR 0x0A]))
      else None)"

definition sample_utf8 :: "string \<Rightarrow> string option" where
  "sample_utf8 bytes = (if list_all (\<lambda>c. (of_char c :: nat) < 128) bytes then Some bytes else None)"

definition sample_json_loads :: "string \<Rightarrow> error + json" where
  "sample_json_loads line =
     (let t = strip line
      in if t = record_line ''offset'' ''0'' ''length'' ''33''
         then Inr (JObject [(''offset'', JInt 0), (''length'', JInt 33)])
         else if t = record_line ''offset'' ''33'' ''length'' ''33''
         then Inr (JObject [(''offset'', JInt 33), (''length'', JInt 33)])
         else if t = record_line ''offset'' ''66'' ''length'' ''33''
         then Inr (JObject [(''offset'', JInt 66), (''length'', JInt 33)])
         else if t = ''{'' @ [CHR 0x22] @ ''length'' @ [CHR 0x22] @ '': 33}''
         then Inr (JObject [(''length'', JInt 33)])
         else if t = record_line ''offset'' ''5'' ''length'' ''0''
         then Inr (JObject [(''offset'', JInt 5), (''length'', JInt 0)])
         else if t = record_line ''start'' ''33'' ''end'' ''66''
         then Inr (JObject [(''start'', JInt 33), (''end'', JInt 66)])
         else Inl JSONDecodeError)"

definition sample_env :: env where
  "sample_env =
     \<lparr>files = sample_files, utf8 = sample_utf8, utf8_replace = id,
      json_loads = sample_json_loads\<rparr>"

text \<open>The three frames of the sample log, and the stores that splitting it and loading
  its index give.\<close>

definition sample_frame1 :: string where
  "sample_frame1 = ''Step 1'' @ [ESC] @ ''[0m: Burning cells = 2'' @ [CHR 0x0A] @ ''..''"

definition sample_frame2 :: string where
  "sample_frame2 = ''Step 2'' @ [ESC] @ ''[0m: Burning cells = 3'' @ [CHR 0x0A] @ ''##''"

definition sample_frame3 :: string where
  "sample_frame3 = ''Step 3'' @ [ESC] @ ''[0m: Burning cells = 1'' @ [CHR 0x0A] @ ''__''"

definition sample_split :: FrameSource where
  "sample_split =
     \<lparr>ans_path = ''run.ans'', indexed = False,
      frames = [sample_frame1, sample_frame2, sample_frame3], entries = []\<rparr>"

definition sample_indexed :: FrameSource where
  "sample_indexed =
     \<lparr>ans_path = ''run.ans'', indexed = True, frames = [],
      entries = [\<lparr>offset = 0, length' = 33\<rparr>, \<lparr>offset = 33, length' = 33\<rparr>,
                 \<lparr>offset = 66, length' = 33\<rparr>]\<rparr>"

text \<open>A session that holds the split store of the sample log.\<close>

definition sample_session :: Session where
  "sample_session =
     \<lparr>source = Some sample_split,
      metrics = Some \<lparr>burning_cells = [Some 2, Some 3, Some 1],
                       natural_burnouts = [None, None, None],
                       extinguished_cum = [None, None, None]\<rparr>,
      agent_status = []\<rparr>"

text \<open>Two load requests, for a log that does not exist and for the log without a
  header.\<close>

definition sample_req_missing :: LoadReq where
  "sample_req_missing =
     \<lparr>req_ans_path = ''missing.ans'', req_index_jsonl = None, req_meta_json = None,
      req_agent_status_path = None\<rparr>"

definition sample_req_plain :: LoadReq where
  "sample_req_plain =
     \<lparr>req_ans_path = ''plain.ans'', req_index_jsonl = None, req_meta_json = None,
      req_agent_status_path = None\<rparr>"

text \<open>A control sequence whose only parameter has 4301 digits, in front of the text
  \<open>X\<close>.\<close>

definition long_param_line :: string where
  "long_param_line = [ESC, CHR ''[''] @ replicate 4301 CHR ''0'' @ ''mX''"


section \<open>Properties of the color model\<close>

lemma hex_digit_lower: "d < 16 \<Longrightarrow> is_lower_hex (hex_digit d)"
proof -
  assume "d < 16"
  then have "d \<in> set [0..<16]" by simp
  then show ?thesis
    unfolding is_lower_hex_def hex_digit_def
    by (simp add: upt_rec) (elim disjE; simp)
qed

lemma hex_digit_val_digit: "d < 16 \<Longrightarrow> hex_digit_val (hex_digit d) = d"
proof -
  assume "d < 16"
  then have "d \<in> set [0..<16]" by simp
  then show ?thesis
    unfolding hex_digit_val_def hex_digit_def
    by (simp add: upt_rec) (elim disjE; simp)
qed

lemma format_02x_byte:
  assumes "0 \<le> v" "v < 256"
  shows "format_02x v = [hex_digit (nat v div 16), hex_digit (nat v mod 16)]"
proof (cases "nat v < 16")
  case True
  then show ?thesis using assms by (simp add: format_02x_def hex_digit_def)
next
  case False
  then have "nat v div 16 < 16" using assms by auto
  then show ?thesis using assms False by (simp add: format_02x_def Let_def)
qed

lemma format_02x_wf:
  assumes "0 \<le> v" "v < 256"
  shows "length (format_02x v) = 2 \<and> list_all is_lower_hex (format_02x v)"
  using assms by (simp add: format_02x_byte hex_digit_lower)

lemma hex_val_bytes:
  assumes "0 \<le> r" "r < 256" "0 \<le> g" "g < 256" "0 \<le> b" "b < 256"
  shows "hex_val (format_02x r @ format_02x g @ format_02x b) = nat (65536 * r + 256 * g + b)"
proof -
  have d: "nat x div 16 < 16" if "0 \<le> x" "x < 256" for x :: int
    using that by auto
  show ?thesis
    using assms
    by (simp add: format_02x_byte hex_val_def hex_digit_val_digit d)
qed

lemma to_255_range: "0 \<le> v \<Longrightarrow> v \<le> 5 \<Longrightarrow> 0 \<le> to_255 v \<and> to_255 v < 256"
  by (simp add: to_255_def)

lemma LUT_wf: "0 \<le> n \<Longrightarrow> n < 16 \<Longrightarrow> well_formed_color (dict_get LUT n ''#cccccc'')"
proof -
  assume "0 \<le> n" "n < 16"
  then have "n \<in> set [0..15]" by simp
  then show ?thesis
    by (simp add: upto_rec1) (elim disjE; simp add: dict_get_def LUT_def well_formed_color_def is_lower_hex_def)
qed

lemma LUT_neg: "n < 0 \<Longrightarrow> dict_get LUT n d = d"
  by (simp add: dict_get_def LUT_def)

lemma cube_digits_unique:
  fixes r g b :: int
  assumes "0 \<le> r" "r \<le> 5" "0 \<le> g" "g \<le> 5" "0 \<le> b" "b \<le> 5"
    and m: "m = 36 * r + 6 * g + b"
  shows "(m div 36) mod 6 = r \<and> (m div 6) mod 6 = g \<and> m mod 6 = b"
proof -
  have b: "m mod 6 = b"
  proof -
    have "m = b + 6 * (6 * r + g)" using m by simp
    then have "m mod 6 = b mod 6" by (metis mod_mult_self2)
    then show ?thesis using assms by simp
  qed
  have d6: "m div 6 = 6 * r + g"
  proof -
    have "m = 6 * (6 * r + g) + b" using m by simp
    then have "m div 6 = (6 * r + g) + b div 6"
      by (metis div_mult_self2 add.commute zero_neq_numeral)
    then show ?thesis using assms by simp
  qed
  have g: "(m div 6) mod 6 = g"
  proof -
    have "(g + 6 * r) mod 6 = g mod 6" by (metis mod_mult_self2)
    then show ?thesis using assms d6 by (simp add: add.commute)
  qed
  have d36: "m div 36 = r"
  proof -
    have "m div 36 = (m div 6) div 6" using zdiv_zmult2_eq [of 6 m 6] by simp
    also have "\<dots> = (6 * r + g) div 6" by (simp add: d6)
    also have "\<dots> = r + g div 6" by (metis div_mult_self2 add.commute zero_neq_numeral)
    finally show ?thesis using assms by simp
  qed
  have r: "(m div 36) mod 6 = r" using d36 assms by simp
  show ?thesis using b g r by simp
qed

text \<open>
  Claim C10. For every integer \<open>n\<close>, negative and above 255 included,
  \<open>xterm_256_to_hex n\<close> is \<open>#\<close> followed by exactly six lowercase hexadecimal digits.
  The function is a total HOL function without an error result.
\<close>

theorem xterm_256_to_hex_well_formed: "well_formed_color (xterm_256_to_hex n)"
proof -
  consider "n < 0" | "0 \<le> n" "n < 16" | "16 \<le> n" "n \<le> 231" | "232 \<le> n" "n \<le> 255" | "255 < n"
    by linarith
  then show ?thesis
  proof cases
    case 1
    then show ?thesis
      by (simp add: xterm_256_to_hex_def LUT_neg well_formed_color_def is_lower_hex_def)
  next
    case 2
    then show ?thesis by (simp add: xterm_256_to_hex_def LUT_wf)
  next
    case 3
    define r g b where "r = ((n - 16) div 36) mod 6" and "g = ((n - 16) div 6) mod 6" and "b = (n - 16) mod 6"
    have rg: "0 \<le> r" "r \<le> 5" "0 \<le> g" "g \<le> 5" "0 \<le> b" "b \<le> 5"
      by (simp_all add: r_def g_def b_def) 
    from rg have "0 \<le> to_255 r \<and> to_255 r < 256" "0 \<le> to_255 g \<and> to_255 g < 256" "0 \<le> to_255 b \<and> to_255 b < 256"
      by (simp_all add: to_255_range)
    then have "length (format_02x (to_255 r)) = 2 \<and> list_all is_lower_hex (format_02x (to_255 r))"
      "length (format_02x (to_255 g)) = 2 \<and> list_all is_lower_hex (format_02x (to_255 g))"
      "length (format_02x (to_255 b)) = 2 \<and> list_all is_lower_hex (format_02x (to_255 b))"
      by (simp_all add: format_02x_wf)
    moreover have "xterm_256_to_hex n = ''#'' @ format_02x (to_255 r) @ format_02x (to_255 g) @ format_02x (to_255 b)"
      using 3 by (simp add: xterm_256_to_hex_def Let_def r_def g_def b_def)
    ultimately show ?thesis by (simp add: well_formed_color_def)
  next
    case 4
    define v where "v = 8 + (n - 232) * 10"
    have "0 \<le> v" "v < 256" using 4 by (simp_all add: v_def)
    then have "length (format_02x v) = 2 \<and> list_all is_lower_hex (format_02x v)"
      by (simp add: format_02x_wf)
    moreover have "xterm_256_to_hex n = ''#'' @ format_02x v @ format_02x v @ format_02x v"
      using 4 by (simp add: xterm_256_to_hex_def Let_def v_def)
    ultimately show ?thesis by (simp add: well_formed_color_def)
  next
    case 5
    then show ?thesis
      by (simp add: xterm_256_to_hex_def well_formed_color_def is_lower_hex_def)
  qed
qed

lemma xterm_cube:
  assumes a: "16 \<le> n" "n \<le> 231"
    and rg: "0 \<le> r" "r \<le> 5" "0 \<le> g" "g \<le> 5" "0 \<le> b" "b \<le> 5"
    and dec: "n - 16 = 36 * r + 6 * g + b"
  shows "xterm_256_to_hex n =
           ''#'' @ format_02x (cube_level r) @ format_02x (cube_level g) @ format_02x (cube_level b) \<and>
         length (xterm_256_to_hex n) = 7 \<and>
         int (hex_val (tl (xterm_256_to_hex n))) = rgb24 (cube_level r) (cube_level g) (cube_level b)"
proof -
  have digits: "((n - 16) div 36) mod 6 = r \<and> ((n - 16) div 6) mod 6 = g \<and> (n - 16) mod 6 = b"
    using rg dec by (rule cube_digits_unique)
  have c: "cube_level v = to_255 v" for v by (simp add: cube_level_def to_255_def)
  have d: "((n - 16) div 36) mod 6 = r" "((n - 16) div 6) mod 6 = g" "(n - 16) mod 6 = b"
    using digits by blast+
  have raw: "xterm_256_to_hex n =
      ''#'' @ format_02x (to_255 (((n - 16) div 36) mod 6)) @
        format_02x (to_255 (((n - 16) div 6) mod 6)) @ format_02x (to_255 ((n - 16) mod 6))"
    using a by (simp add: xterm_256_to_hex_def Let_def)
  have x: "xterm_256_to_hex n = ''#'' @ format_02x (cube_level r) @ format_02x (cube_level g) @ format_02x (cube_level b)"
    unfolding raw d c by (rule refl)
  have rng: "0 \<le> cube_level r" "cube_level r < 256" "0 \<le> cube_level g" "cube_level g < 256" "0 \<le> cube_level b" "cube_level b < 256"
    using rg by (simp_all add: cube_level_def)
  have len: "length (xterm_256_to_hex n) = 7"
    using rng by (simp add: x format_02x_wf)
  have hv: "int (hex_val (tl (xterm_256_to_hex n))) = rgb24 (cube_level r) (cube_level g) (cube_level b)"
    using rng by (simp add: x hex_val_bytes rgb24_def)
  show ?thesis
    using x len hv by simp
qed

lemma xterm_gray:
  assumes a: "232 \<le> n" "n \<le> 255"
  shows "xterm_256_to_hex n =
        ''#'' @ format_02x (gray_level n) @ format_02x (gray_level n) @ format_02x (gray_level n) \<and>
      length (xterm_256_to_hex n) = 7 \<and>
      int (hex_val (tl (xterm_256_to_hex n))) = rgb24 (gray_level n) (gray_level n) (gray_level n)"
proof -
  have v: "0 \<le> gray_level n" "gray_level n < 256" using a by (simp_all add: gray_level_def)
  have x: "xterm_256_to_hex n = ''#'' @ format_02x (gray_level n) @ format_02x (gray_level n) @ format_02x (gray_level n)"
    using a by (simp add: xterm_256_to_hex_def Let_def gray_level_def mult.commute)
  show ?thesis
    using v by (simp add: x format_02x_wf hex_val_bytes rgb24_def)
qed

lemma xterm_outside: "n < 0 \<or> 255 < n \<Longrightarrow> xterm_256_to_hex n = ''#cccccc''"
  by (auto simp add: xterm_256_to_hex_def LUT_neg)

text \<open>
  Claim C4. For \<open>n\<close> in \<open>16..231\<close>, \<open>xterm_256_to_hex\<close> maps \<open>n\<close> through the 6x6x6
  cube: whenever \<open>n - 16\<close> has the base-6 digits \<open>(r, g, b)\<close>, each in \<open>0..5\<close>, the
  result is \<open>#\<close> followed by the three channel levels (digit \<open>0\<close> gives \<open>0\<close>, digit
  \<open>v > 0\<close> gives \<open>55 + 40 * v\<close>) in two hexadecimal digits each, seven characters
  that read as the 24-bit value \<open>65536 * R + 256 * G + B\<close>. For \<open>n\<close> in \<open>232..255\<close>
  the result is the gray level \<open>8 + 10 * (n - 232)\<close> on all three channels. For \<open>n\<close>
  outside \<open>0..255\<close> the result is the fixed gray \<open>#cccccc\<close>.
\<close>

theorem xterm_256_to_hex_ranges:
  "(16 \<le> n \<and> n \<le> 231 \<and> 0 \<le> r \<and> r \<le> 5 \<and> 0 \<le> g \<and> g \<le> 5 \<and> 0 \<le> b \<and> b \<le> 5 \<and>
    n - 16 = 36 * r + 6 * g + b \<longrightarrow>
      xterm_256_to_hex n =
        ''#'' @ format_02x (cube_level r) @ format_02x (cube_level g) @ format_02x (cube_level b) \<and>
      length (xterm_256_to_hex n) = 7 \<and>
      int (hex_val (tl (xterm_256_to_hex n))) = rgb24 (cube_level r) (cube_level g) (cube_level b))
   \<and> (232 \<le> n \<and> n \<le> 255 \<longrightarrow>
      xterm_256_to_hex n =
        ''#'' @ format_02x (gray_level n) @ format_02x (gray_level n) @ format_02x (gray_level n) \<and>
      length (xterm_256_to_hex n) = 7 \<and>
      int (hex_val (tl (xterm_256_to_hex n))) = rgb24 (gray_level n) (gray_level n) (gray_level n))
   \<and> (n < 0 \<or> 255 < n \<longrightarrow> xterm_256_to_hex n = ''#cccccc'')"
  using xterm_cube [of n r g b] xterm_gray [of n] xterm_outside [of n] by blast

theorem xterm_256_to_hex_ranges_witness:
  "((16::int) \<le> 196 \<and> (196::int) \<le> 231 \<and> (196::int) - 16 = 36 * 5 + 6 * 0 + 0 \<and>
      xterm_256_to_hex 196 = ''#ff0000'' \<and> rgb24 (cube_level 5) (cube_level 0) (cube_level 0) = 16711680)
   \<and> ((232::int) \<le> 244 \<and> (244::int) \<le> 255 \<and> xterm_256_to_hex 244 = ''#808080'')
   \<and> ((255::int) < 256 \<and> xterm_256_to_hex 256 = ''#cccccc'')
   \<and> ((-1::int) < 0 \<and> xterm_256_to_hex (- 1) = ''#cccccc'')"
  using xterm_256_to_hex_ranges [of 196 5 0 0] xterm_256_to_hex_ranges [of 244 0 0 0]
    xterm_256_to_hex_ranges [of 256 0 0 0] xterm_256_to_hex_ranges [of "- 1" 0 0 0]
  by (simp add: cube_level_def gray_level_def rgb24_def format_02x_def hex_digit_def)

section \<open>Properties of the escape-code interpreter\<close>

declare finditer_from.simps [simp del] SGR_RE_sub_empty.simps [simp del] sgr_params.simps [simp del]

text \<open>The equations that evaluate the interpreter on a concrete line.\<close>

lemmas sgr_eval =
  parse_ansi_to_spans_def finditer_def finditer_from.simps SGR_RE_match_def ESC_def
  sgr_param_char_def sgr_match_step_def slice_def flush_def sgr_params.simps sgr_param_step_def
  sgr_parts_def isdigit_def is_ascii_digit_def int_of_digits_def int_max_str_digits_def
  try_bind_def Style_default_def Let_def dict_get_opt_def BASIC_COLORS_def BASIC_BG_def

text \<open>The scenario of the specification: bold, then blue, then reset around \<open>Hot\<close>.\<close>

lemma parse_ansi_to_spans_Hot:
  "parse_ansi_to_spans ([ESC] @ ''[1m'' @ [ESC] @ ''[34mHot'' @ [ESC] @ ''[0m'') =
     Inr [\<lparr>span_text = ''Hot'', style = \<lparr>bold = True, fg = Some ''#1e90ff'', bg = None\<rparr>\<rparr>]"
  by (simp add: sgr_eval)

subsection \<open>The text of the runs\<close>

lemma parse_ansi_to_spans_finish:
  "parse_ansi_to_spans s =
     (case sgr_loop s (finditer s) (0, \<lparr>spans = [], cur = Style_default, buf = []\<rparr>) of
        Inl e \<Rightarrow> Inl e
      | Inr ist \<Rightarrow> Inr (finish s ist))"
  by (simp add: parse_ansi_to_spans_def finish_def split: sum.splits)

lemma state_text_flush: "state_text (flush st) = state_text st"
  by (simp add: state_text_def flush_def)

lemma spans_flush_text: "concat (map span_text (spans (flush st))) = state_text st"
  by (simp add: state_text_def flush_def)

lemma state_text_cur: "state_text (st\<lparr>cur := c\<rparr>) = state_text st"
  by (simp add: state_text_def)

lemma state_text_buf: "state_text (st\<lparr>buf := buf st @ [chunk]\<rparr>) = state_text st @ chunk"
  by (simp add: state_text_def)

lemma sgr_param_step_text:
  "sgr_param_step parts j st = (st', j') \<Longrightarrow> state_text st' = state_text st"
  by (auto simp: sgr_param_step_def Let_def state_text_cur state_text_flush split: if_splits)

lemma sgr_params_text: "state_text (sgr_params parts j st) = state_text st"
proof (induction parts j st rule: sgr_params.induct)
  case (1 parts j st)
  show ?case
  proof (cases "j < length parts")
    case True
    obtain st' j' where step: "sgr_param_step parts j st = (st', j')"
      by (cases "sgr_param_step parts j st")
    have "state_text (sgr_params parts (j' + 1) st') = state_text st'"
      using "1.IH" [OF True step [symmetric]] .
    then show ?thesis
      using True step by (simp add: sgr_params.simps [of parts j st] sgr_param_step_text)
  next
    case False
    then show ?thesis by (simp add: sgr_params.simps [of parts j st])
  qed
qed

lemma sgr_match_step_text:
  "sgr_match_step s m (i, st) = Inr (i', st') \<Longrightarrow>
     i' = m_end m \<and> state_text st' = state_text st @ slice s i (m_start m)"
  by (auto simp: sgr_match_step_def Let_def state_text_cur state_text_flush state_text_buf
        sgr_params_text split: if_splits sum.splits)

lemma finish_text:
  "concat (map span_text (finish s (i, st))) = state_text st @ drop i s"
  by (simp add: finish_def spans_flush_text state_text_buf)

lemma slice_Suc: "i \<le> pos \<Longrightarrow> pos < length s \<Longrightarrow> slice s i (Suc pos) = slice s i pos @ [s ! pos]"
proof -
  assume a: "i \<le> pos" "pos < length s"
  then have "pos - i < length (drop i s)" by simp
  then have "take (Suc (pos - i)) (drop i s) = take (pos - i) (drop i s) @ [drop i s ! (pos - i)]"
    by (rule take_Suc_conv_app_nth)
  moreover have "Suc pos - i = Suc (pos - i)" using a by simp
  ultimately show ?thesis using a by (simp add: slice_def)
qed

lemma sub_empty_Nil: "SGR_RE_sub_empty [] = []"
  by (simp add: SGR_RE_sub_empty.simps [of "[]"])

lemma sub_empty_None:
  "s \<noteq> [] \<Longrightarrow> SGR_RE_match s = None \<Longrightarrow> SGR_RE_sub_empty s = hd s # SGR_RE_sub_empty (tl s)"
  by (subst SGR_RE_sub_empty.simps) (auto split: list.splits)

lemma sub_empty_Some:
  "SGR_RE_match s = Some (codes, n) \<Longrightarrow> SGR_RE_sub_empty s = SGR_RE_sub_empty (drop n s)"
  by (subst SGR_RE_sub_empty.simps) (auto simp: SGR_RE_match_def split: list.splits)

lemma sub_empty_text:
  "i \<le> pos \<Longrightarrow> sgr_loop s (finditer_from s pos) (i, st) = Inr ist' \<Longrightarrow>
   concat (map span_text (finish s ist')) =
     state_text st @ slice s i pos @ SGR_RE_sub_empty (drop pos s)"
proof (induction s pos arbitrary: i st rule: finditer_from.induct)
  case (1 s pos)
  show ?case
  proof (cases "length s \<le> pos")
    case True
    then have "finditer_from s pos = []" by (simp add: finditer_from.simps [of s pos])
    then have "ist' = (i, st)" using "1.prems"(2) by simp
    moreover have "SGR_RE_sub_empty (drop pos s) = []"
      using True by (simp add: sub_empty_Nil)
    moreover have "slice s i pos = drop i s" using True by (simp add: slice_def)
    ultimately show ?thesis by (simp add: finish_text)
  next
    case False
    show ?thesis
    proof (cases "SGR_RE_match (drop pos s)")
      case None
      have fi: "finditer_from s pos = finditer_from s (pos + 1)"
        using False None by (simp add: finditer_from.simps [of s pos])
      have su: "SGR_RE_sub_empty (drop pos s) = s ! pos # SGR_RE_sub_empty (drop (Suc pos) s)"
        using sub_empty_None [OF _ None] False by (simp add: hd_drop_conv_nth drop_Suc tl_drop)
      have le: "i \<le> pos + 1" using "1.prems"(1) by simp
      have lp: "sgr_loop s (finditer_from s (pos + 1)) (i, st) = Inr ist'"
        using "1.prems"(2) by (simp add: fi)
      from "1.IH"(1) [OF False None le lp]
      have "concat (map span_text (finish s ist')) =
              state_text st @ slice s i (pos + 1) @ SGR_RE_sub_empty (drop (pos + 1) s)" .
      then show ?thesis
        using False "1.prems"(1) by (simp add: su slice_Suc)
    next
      case (Some a)
      obtain codes n where a: "a = (codes, n)" by (cases a)
      define m where "m = \<lparr>m_start = pos, m_end = pos + n, group1 = codes\<rparr>"
      have fi: "finditer_from s pos = m # finditer_from s (pos + n)"
        using False Some a by (simp add: finditer_from.simps [of s pos] m_def)
      have su: "SGR_RE_sub_empty (drop pos s) = SGR_RE_sub_empty (drop (pos + n) s)"
        using sub_empty_Some [of "drop pos s" codes n] Some a by (simp add: add.commute)
      obtain i1 st1 where st: "sgr_match_step s m (i, st) = Inr (i1, st1)"
        and lp: "sgr_loop s (finditer_from s (pos + n)) (i1, st1) = Inr ist'"
        using "1.prems"(2) by (auto simp: fi split: sum.splits)
      have i1: "i1 = pos + n" and t: "state_text st1 = state_text st @ slice s i pos"
        using sgr_match_step_text [OF st] by (simp_all add: m_def)
      from "1.IH"(2) [OF False Some a [symmetric], of "pos + n" st1 ] lp
      have "concat (map span_text (finish s ist')) =
              state_text st1 @ slice s (pos + n) (pos + n) @ SGR_RE_sub_empty (drop (pos + n) s)"
        by (simp add: i1)
      then show ?thesis
        by (simp add: su t slice_def)
    qed
  qed
qed

lemma parse_text:
  "parse_ansi_to_spans s = Inr sps \<Longrightarrow> concat (map span_text sps) = SGR_RE_sub_empty s"
proof -
  assume a: "parse_ansi_to_spans s = Inr sps"
  then obtain ist where l: "sgr_loop s (finditer_from s 0) (0, \<lparr>spans = [], cur = Style_default, buf = []\<rparr>) = Inr ist"
    and f: "sps = finish s ist"
    by (auto simp: parse_ansi_to_spans_finish finditer_def split: sum.splits)
  show ?thesis
    using sub_empty_text [OF _ l] by (simp add: f state_text_def slice_def)
qed

subsection \<open>Parameters beyond the digit limit\<close>

lemma ints_of_ok: "list_all short_piece ps \<Longrightarrow> \<exists>ns. ints_of ps = Inr ns"
proof (induction ps)
  case Nil
  then show ?case by simp
next
  case (Cons p ps)
  then obtain ns where "ints_of ps = Inr ns" by auto
  moreover have "\<exists>n. int_of_digits p = Inr n"
    using Cons.prems by (simp add: int_of_digits_def short_piece_def)
  ultimately show ?case by auto
qed

lemma ints_of_long: "\<not> list_all short_piece ps \<Longrightarrow> ints_of ps = Inl ValueError"
proof (induction ps)
  case Nil
  then show ?case by simp
next
  case (Cons p ps)
  show ?case
  proof (cases "short_piece p")
    case True
    then have "ints_of ps = Inl ValueError" using Cons by simp
    then show ?thesis by (simp add: int_of_digits_def split: sum.splits if_splits)
  next
    case False
    then show ?thesis by (simp add: int_of_digits_def short_piece_def)
  qed
qed

lemma split_on_not_Nil: "split_on sep s \<noteq> []"
  by (induction s) (auto split: list.splits)

lemma split_on_chars: "p \<in> set (split_on sep s) \<Longrightarrow> set p \<subseteq> set s - {sep}"
proof (induction s arbitrary: p)
  case Nil
  then show ?case by simp
next
  case (Cons c cs)
  show ?case
  proof (cases "c = sep")
    case True
    then show ?thesis using Cons by auto
  next
    case False
    obtain q qs where q: "split_on sep cs = q # qs"
      using split_on_not_Nil [of sep cs] by (cases "split_on sep cs") auto
    then have "p = c # q \<or> p \<in> set qs" using Cons.prems False by simp
    moreover have "set q \<subseteq> set cs - {sep}" using Cons.IH [of q] q by simp
    moreover have "p \<in> set qs \<Longrightarrow> set p \<subseteq> set cs - {sep}" using Cons.IH [of p] q by simp
    ultimately show ?thesis using False by auto
  qed
qed

lemma sgr_parts_ok: "convertible codes \<Longrightarrow> \<exists>ps. sgr_parts codes = Inr ps"
proof -
  assume "convertible codes"
  then have "list_all short_piece (filter isdigit (split_on CHR '';'' codes))"
    by (simp add: convertible_def list_all_iff)
  then show ?thesis unfolding sgr_parts_def by (rule ints_of_ok)
qed

lemma param_char_digit: "sgr_param_char c \<Longrightarrow> c \<noteq> CHR '';'' \<Longrightarrow> is_ascii_digit c"
  by (auto simp: sgr_param_char_def is_ascii_digit_def)

lemma sgr_parts_long:
  assumes "list_all sgr_param_char codes" "\<not> convertible codes"
  shows "sgr_parts codes = Inl ValueError"
proof -
  obtain p where p: "p \<in> set (split_on CHR '';'' codes)" "\<not> short_piece p"
    using assms(2) by (auto simp: convertible_def list_all_iff)
  have "set p \<subseteq> set codes - {CHR '';''}" using p(1) by (rule split_on_chars)
  then have "list_all is_ascii_digit p"
    using assms(1) param_char_digit by (auto simp: list_all_iff)
  moreover have "p \<noteq> []" using p(2) by (auto simp: short_piece_def)
  ultimately have "p \<in> set (filter isdigit (split_on CHR '';'' codes))"
    using p(1) by (simp add: isdigit_def)
  then have "\<not> list_all short_piece (filter isdigit (split_on CHR '';'' codes))"
    using p(2) by (auto simp: list_all_iff)
  then show ?thesis unfolding sgr_parts_def by (rule ints_of_long)
qed

lemma convertible_reset: "convertible [] \<and> convertible ''0''"
  by (simp add: convertible_def short_piece_def int_max_str_digits_def)

lemma sgr_match_step_ok:
  "convertible (group1 m) \<Longrightarrow> \<exists>ist'. sgr_match_step s m ist = Inr ist'"
  using sgr_parts_ok [of "group1 m"]
  by (cases ist) (auto simp: sgr_match_step_def Let_def)

lemma sgr_match_step_long:
  assumes "list_all sgr_param_char (group1 m)" "\<not> convertible (group1 m)"
  shows "sgr_match_step s m ist = Inl ValueError"
proof -
  have "group1 m \<noteq> []" "group1 m \<noteq> ''0''" using assms(2) convertible_reset by auto
  then show ?thesis
    using sgr_parts_long [OF assms] by (cases ist) (simp add: sgr_match_step_def Let_def)
qed

lemma sgr_loop_ok:
  "list_all (\<lambda>m. convertible (group1 m)) ms \<Longrightarrow> \<exists>ist'. sgr_loop s ms ist = Inr ist'"
proof (induction ms arbitrary: ist)
  case Nil
  then show ?case by simp
next
  case (Cons m ms)
  then obtain ist1 where "sgr_match_step s m ist = Inr ist1"
    using sgr_match_step_ok [of m s ist] by auto
  then show ?case using Cons by simp
qed

lemma sgr_loop_long:
  "list_all (\<lambda>m. list_all sgr_param_char (group1 m)) ms \<Longrightarrow>
   \<not> list_all (\<lambda>m. convertible (group1 m)) ms \<Longrightarrow> sgr_loop s ms ist = Inl ValueError"
proof (induction ms arbitrary: ist)
  case Nil
  then show ?case by simp
next
  case (Cons m ms)
  show ?case
  proof (cases "convertible (group1 m)")
    case True
    then obtain ist1 where "sgr_match_step s m ist = Inr ist1"
      using sgr_match_step_ok [of m s ist] by auto
    then show ?thesis using Cons True by simp
  next
    case False
    then have "sgr_match_step s m ist = Inl ValueError"
      using Cons.prems(1) by (intro sgr_match_step_long) simp_all
    then show ?thesis by simp
  qed
qed

lemma SGR_RE_match_chars:
  "SGR_RE_match s = Some (codes, n) \<Longrightarrow> list_all sgr_param_char codes"
proof -
  assume a: "SGR_RE_match s = Some (codes, n)"
  then obtain e b r where s: "s = e # b # r"
    by (cases s; cases "tl s") (auto simp: SGR_RE_match_def)
  from a have "codes = takeWhile sgr_param_char r"
    by (auto simp: SGR_RE_match_def s Let_def split: if_splits list.splits)
  then show ?thesis by (auto simp: list_all_iff dest: set_takeWhileD)
qed

lemma finditer_from_chars:
  "list_all (\<lambda>m. list_all sgr_param_char (group1 m)) (finditer_from s pos)"
proof (induction s pos rule: finditer_from.induct)
  case (1 s pos)
  show ?case
  proof (cases "length s \<le> pos")
    case True
    then show ?thesis by (simp add: finditer_from.simps [of s pos])
  next
    case False
    show ?thesis
    proof (cases "SGR_RE_match (drop pos s)")
      case None
      then show ?thesis
        using False "1.IH"(1) [OF False None] by (simp add: finditer_from.simps [of s pos])
    next
      case (Some a)
      obtain codes n where a: "a = (codes, n)" by (cases a)
      have "list_all sgr_param_char codes" using Some a SGR_RE_match_chars by simp
      then show ?thesis
        using False Some a "1.IH"(2) [OF False Some a [symmetric]]
        by (simp add: finditer_from.simps [of s pos])
    qed
  qed
qed

lemma parse_convertible:
  "convertible_line s \<Longrightarrow>
     \<exists>sps. parse_ansi_to_spans s = Inr sps \<and> concat (map span_text sps) = SGR_RE_sub_empty s"
proof -
  assume "convertible_line s"
  then obtain ist where
    "sgr_loop s (finditer s) (0, \<lparr>spans = [], cur = Style_default, buf = []\<rparr>) = Inr ist"
    using sgr_loop_ok [of "finditer s" s] unfolding convertible_line_def by blast
  then have "parse_ansi_to_spans s = Inr (finish s ist)"
    by (simp add: parse_ansi_to_spans_finish)
  then show ?thesis using parse_text by blast
qed

lemma parse_not_convertible:
  "\<not> convertible_line s \<Longrightarrow> parse_ansi_to_spans s = Inl ValueError"
proof -
  assume "\<not> convertible_line s"
  then have "sgr_loop s (finditer s) (0, \<lparr>spans = [], cur = Style_default, buf = []\<rparr>) =
      Inl ValueError"
    unfolding convertible_line_def finditer_def
    by (intro sgr_loop_long finditer_from_chars)
  then show ?thesis by (simp add: parse_ansi_to_spans_finish)
qed

text \<open>The line with a parameter of 4301 digits: its one control sequence, and the text
  that is left without it.\<close>

lemma SGR_RE_match_long:
  "SGR_RE_match long_param_line = Some (replicate 4301 CHR ''0'', 4304)"
proof -
  have t: "takeWhile sgr_param_char (replicate 4301 CHR ''0'' @ ''mX'') = replicate 4301 CHR ''0''"
    by (subst takeWhile_append2) (simp_all add: sgr_param_char_def)
  show ?thesis
    unfolding SGR_RE_match_def long_param_line_def
    by (simp add: t ESC_def)
qed

lemma drop_long: "drop 4304 long_param_line = ''X''"
  by (simp add: long_param_line_def)

lemma finditer_long:
  "finditer long_param_line =
     [\<lparr>m_start = 0, m_end = 4304, group1 = replicate 4301 CHR ''0''\<rparr>]"
proof -
  have l: "length long_param_line = 4305" by (simp add: long_param_line_def)
  have x: "SGR_RE_match ''X'' = None" by (simp add: SGR_RE_match_def)
  have a: "finditer_from long_param_line 4305 = []"
    by (subst finditer_from.simps) (simp add: l)
  have b: "finditer_from long_param_line 4304 = []"
    by (subst finditer_from.simps) (simp add: l drop_long x a)
  show ?thesis
    unfolding finditer_def
    by (subst finditer_from.simps) (simp add: l SGR_RE_match_long b)
qed

lemma split_on_replicate:
  "c \<noteq> sep \<Longrightarrow> split_on sep (replicate n c) = [replicate n c]"
  by (induction n) simp_all

lemma long_not_convertible: "\<not> convertible_line long_param_line"
  by (simp add: convertible_line_def finditer_long convertible_def split_on_replicate
        short_piece_def int_max_str_digits_def)

lemma sub_empty_long: "SGR_RE_sub_empty long_param_line = ''X''"
proof -
  have "SGR_RE_sub_empty long_param_line = SGR_RE_sub_empty ''X''"
    using sub_empty_Some [OF SGR_RE_match_long] by (simp add: drop_long)
  also have "\<dots> = ''X''"
    using sub_empty_None [of "''X''"] by (simp add: SGR_RE_match_def sub_empty_Nil)
  finally show ?thesis .
qed

text \<open>
  Claim C1, as stated, holds of every input line. On the line \<open>ESC [ 0...0 m X\<close> with
  4301 zeros the conversion \<open>int(p)\<close> of the parameter raises \<open>ValueError\<close>: the
  interpreter returns no runs, while the line without its control sequence is \<open>X\<close>.
\<close>

theorem parse_long_param_counterexample:
  "parse_ansi_to_spans long_param_line = Inl ValueError \<and>
   SGR_RE_sub_empty long_param_line = ''X''"
  using parse_not_convertible [OF long_not_convertible] sub_empty_long by simp

text \<open>
  Claim C1, amended. For every input line in which no numeric parameter of a control
  sequence has more than 4300 digits, the interpreter returns runs, and their texts,
  concatenated in order, are the input with every control sequence \<open>ESC [ params m\<close>
  removed, that is \<open>SGR_RE.sub("", s)\<close>. On every other line it raises \<open>ValueError\<close>
  and returns nothing. Whenever it returns runs, their texts concatenate to the input
  without its control sequences.
\<close>

theorem parse_ansi_to_spans_concat:
  "(convertible_line s \<longrightarrow>
      (\<exists>sps. parse_ansi_to_spans s = Inr sps \<and>
             concat (map span_text sps) = SGR_RE_sub_empty s))
   \<and> (\<not> convertible_line s \<longrightarrow> parse_ansi_to_spans s = Inl ValueError)
   \<and> (parse_ansi_to_spans s = Inr sps \<longrightarrow> concat (map span_text sps) = SGR_RE_sub_empty s)"
  using parse_convertible [of s] parse_not_convertible [of s] parse_text [of s sps] by blast

theorem parse_ansi_to_spans_concat_witness:
  "convertible_line ([ESC] @ ''[1m'' @ [ESC] @ ''[34mHot'' @ [ESC] @ ''[0m'') \<and>
   parse_ansi_to_spans ([ESC] @ ''[1m'' @ [ESC] @ ''[34mHot'' @ [ESC] @ ''[0m'') =
     Inr [\<lparr>span_text = ''Hot'', style = \<lparr>bold = True, fg = Some ''#1e90ff'', bg = None\<rparr>\<rparr>] \<and>
   SGR_RE_sub_empty ([ESC] @ ''[1m'' @ [ESC] @ ''[34mHot'' @ [ESC] @ ''[0m'') = ''Hot'' \<and>
   \<not> convertible_line long_param_line \<and>
   parse_ansi_to_spans long_param_line = Inl ValueError"
proof -
  let ?s = "[ESC] @ ''[1m'' @ [ESC] @ ''[34mHot'' @ [ESC] @ ''[0m''"
  let ?sps = "[\<lparr>span_text = ''Hot'', style = \<lparr>bold = True, fg = Some ''#1e90ff'', bg = None\<rparr>\<rparr>]"
  have c: "convertible_line ?s"
    by (simp add: convertible_line_def convertible_def short_piece_def sgr_eval)
  have p: "parse_ansi_to_spans ?s = Inr ?sps" by (rule parse_ansi_to_spans_Hot)
  have "concat (map span_text ?sps) = SGR_RE_sub_empty ?s"
    using parse_ansi_to_spans_concat [of ?s ?sps] p by blast
  moreover have "concat (map span_text ?sps) = ''Hot''" by simp
  ultimately have t: "SGR_RE_sub_empty ?s = ''Hot''" by (rule box_equals [OF refl]) 
  have e: "parse_ansi_to_spans long_param_line = Inl ValueError"
    using parse_ansi_to_spans_concat [of long_param_line "[]"] long_not_convertible by blast
  show ?thesis using c p t e long_not_convertible by blast
qed

subsection \<open>Lines without control sequences\<close>

lemma has_sgr_iff: "has_sgr s \<longleftrightarrow> (\<exists>pos < length s. SGR_RE_match (drop pos s) \<noteq> None)"
  unfolding has_sgr_def list_ex_iff set_upt by (meson atLeastLessThan_iff zero_le)

lemma no_sgr_None: "\<not> has_sgr s \<Longrightarrow> pos < length s \<Longrightarrow> SGR_RE_match (drop pos s) = None"
  unfolding has_sgr_iff by blast

lemma finditer_from_plain: "\<not> has_sgr s \<Longrightarrow> finditer_from s pos = []"
proof (induction s pos rule: finditer_from.induct)
  case (1 s pos)
  show ?case
  proof (cases "length s \<le> pos")
    case True
    then show ?thesis by (simp add: finditer_from.simps [of s pos])
  next
    case False
    then have none: "SGR_RE_match (drop pos s) = None"
      using "1.prems" by (intro no_sgr_None) simp_all
    have "finditer_from s (pos + 1) = []"
      using "1.IH"(1) [OF False none "1.prems"] .
    then show ?thesis
      using False none by (simp add: finditer_from.simps [of s pos])
  qed
qed

lemma finditer_from_has_sgr: "finditer_from s pos = [] \<Longrightarrow> pos \<le> p \<Longrightarrow> p < length s \<Longrightarrow> SGR_RE_match (drop p s) = None"
proof (induction s pos rule: finditer_from.induct)
  case (1 s pos)
  have lt: "\<not> length s \<le> pos" using "1.prems" by simp
  have none: "SGR_RE_match (drop pos s) = None"
  proof (cases "SGR_RE_match (drop pos s)")
    case None
    then show ?thesis .
  next
    case (Some a)
    then have "finditer_from s pos \<noteq> []"
      using lt by (cases a) (simp add: finditer_from.simps [of s pos])
    then show ?thesis using "1.prems"(1) by simp
  qed
  show ?case
  proof (cases "p = pos")
    case True
    then show ?thesis using none by simp
  next
    case False
    have "finditer_from s (pos + 1) = []"
      using "1.prems"(1) lt none by (simp add: finditer_from.simps [of s pos])
    from "1.IH"(1) [OF lt none this] False "1.prems" show ?thesis by simp
  qed
qed

lemma finditer_empty_iff: "finditer s = [] \<longleftrightarrow> \<not> has_sgr s"
proof
  assume a: "finditer s = []"
  have "SGR_RE_match (drop p s) = None" if "p < length s" for p
  proof (rule finditer_from_has_sgr [of s 0])
    show "finditer_from s 0 = []" using a by (simp only: finditer_def)
    show "0 \<le> p" by simp
    show "p < length s" by (rule that)
  qed
  then show "\<not> has_sgr s" by (simp add: has_sgr_iff)
next
  assume "\<not> has_sgr s"
  then have "finditer_from s 0 = []" by (rule finditer_from_plain)
  then show "finditer s = []" by (simp only: finditer_def)
qed

lemma sub_empty_plain: "\<not> has_sgr s \<Longrightarrow> SGR_RE_sub_empty s = s"
proof (induction s)
  case Nil
  then show ?case by (simp add: sub_empty_Nil)
next
  case (Cons c cs)
  have none: "SGR_RE_match (c # cs) = None"
    using no_sgr_None [OF Cons.prems, of 0] by simp
  have "\<not> has_sgr cs"
  proof
    assume "has_sgr cs"
    then obtain pos where "pos < length cs" "SGR_RE_match (drop pos cs) \<noteq> None"
      unfolding has_sgr_iff by blast
    then have "Suc pos < length (c # cs) \<and> SGR_RE_match (drop (Suc pos) (c # cs)) \<noteq> None"
      by simp
    then have "has_sgr (c # cs)" unfolding has_sgr_iff by blast
    then show False using Cons.prems by simp
  qed
  then have "SGR_RE_sub_empty cs = cs" by (rule Cons.IH)
  then show ?case using sub_empty_None [of "c # cs"] none by simp
qed

text \<open>
  Claim C9, as stated, asks for exactly one run on every line without control sequences,
  the empty line included. On the empty line the buffer stays empty, \<open>flush\<close> emits
  nothing, and the result has no run.
\<close>

theorem parse_plain_empty_counterexample:
  "\<not> has_sgr [] \<and> parse_ansi_to_spans [] = Inr []"
  by (simp add: has_sgr_def sgr_eval)

text \<open>
  Claim C9, amended. For every non-empty input line without control sequences,
  \<open>parse_ansi_to_spans\<close> yields exactly one run, whose text is the input and whose
  style is the default (not bold, no foreground, no background). For the empty line it
  yields no run.
\<close>

theorem parse_plain:
  "\<not> has_sgr s \<longrightarrow>
     parse_ansi_to_spans s =
       Inr (if s = [] then [] else [\<lparr>span_text = s, style = Style_default\<rparr>])"
proof
  assume "\<not> has_sgr s"
  then have "finditer s = []" by (simp add: finditer_empty_iff)
  then show "parse_ansi_to_spans s =
      Inr (if s = [] then [] else [\<lparr>span_text = s, style = Style_default\<rparr>])"
    by (simp add: parse_ansi_to_spans_def flush_def)
qed

theorem parse_plain_witness:
  "\<not> has_sgr ''Step'' \<and>
   parse_ansi_to_spans ''Step'' =
     Inr [\<lparr>span_text = ''Step'', style = \<lparr>bold = False, fg = None, bg = None\<rparr>\<rparr>]"
proof -
  have h: "\<not> has_sgr ''Step''"
    by code_simp
  show ?thesis using h parse_plain [of "''Step''"] by (simp add: Style_default_def)
qed

subsection \<open>Malformed extended-color markers\<close>

lemma sgr_param_step_Cons:
  "sgr_param_step (c # rest) (Suc j) st =
     (case sgr_param_step rest j st of (st', j') \<Rightarrow> (st', Suc j'))"
  by (simp add: sgr_param_step_def Let_def)

lemma sgr_params_Cons: "sgr_params (c # rest) (Suc j) st = sgr_params rest j st"
proof (induction rest j st rule: sgr_params.induct)
  case (1 parts j st)
  show ?case
  proof (cases "j < length parts")
    case True
    obtain st' j' where step: "sgr_param_step parts j st = (st', j')"
      by (cases "sgr_param_step parts j st")
    have ih: "sgr_params (c # parts) (Suc (j' + 1)) st' = sgr_params parts (j' + 1) st'"
      using "1.IH" [OF True step [symmetric]] .
    have "sgr_params (c # parts) (Suc j) st = sgr_params (c # parts) (Suc j' + 1) st'"
      using True by (simp add: sgr_params.simps [of "c # parts" "Suc j" st] sgr_param_step_Cons step)
    also have "\<dots> = sgr_params parts (j' + 1) st'" using ih by simp
    also have "\<dots> = sgr_params parts j st"
      using True by (simp add: sgr_params.simps [of parts j st] step)
    finally show ?thesis .
  next
    case False
    then show ?thesis
      by (simp add: sgr_params.simps [of parts j st] sgr_params.simps [of "c # parts" "Suc j" st])
  qed
qed


lemma malformed_step_at:
  assumes j: "j < length parts" and m: "malformed_extended (parts ! j) (drop (Suc j) parts)"
  shows "sgr_param_step parts j st = (st, j)"
proof -
  have c: "parts ! j = 38 \<or> parts ! j = 48" using m by (simp add: malformed_extended_def)
  have n: "\<not> (j + 2 < length parts \<and> parts ! (j + 1) = 5)"
  proof
    assume a: "j + 2 < length parts \<and> parts ! (j + 1) = 5"
    then have "2 \<le> length (drop (Suc j) parts)" by (simp; arith)
    moreover have "hd (drop (Suc j) parts) = 5" using a by (simp add: hd_drop_conv_nth)
    ultimately show False using m by (simp add: malformed_extended_def)
  qed
  from c show ?thesis
  proof
    assume "parts ! j = 38"
    then show ?thesis using n unfolding sgr_param_step_def Let_def by simp
  next
    assume "parts ! j = 48"
    then show ?thesis using n unfolding sgr_param_step_def Let_def by simp
  qed
qed

lemma malformed_skipped_at:
  assumes j: "j < length parts" and m: "malformed_extended (parts ! j) (drop (Suc j) parts)"
  shows "sgr_params parts j st = sgr_params parts (Suc j) st"
  by (subst sgr_params.simps) (simp add: malformed_step_at [OF j m] j)

lemma malformed_skipped_head:
  assumes m: "malformed_extended c rest"
  shows "sgr_params (c # rest) 0 st = sgr_params rest 0 st"
proof -
  have "sgr_params (c # rest) 0 st = sgr_params (c # rest) (Suc 0) st"
    using malformed_skipped_at [of 0 "c # rest" st] m by simp
  then show ?thesis by (simp only: sgr_params_Cons)
qed

text \<open>
  Claim C7, as stated, lets no parameter of a malformed extended-color group change the
  style or close a run. In \<open>ESC [ 38 ; 1 m\<close> the marker 38 is not followed by the
  selector 5 and an index; the parameter 1 that follows it still closes the run \<open>A\<close>
  and switches bold on.
\<close>

theorem malformed_group_counterexample:
  "sgr_parts ''38;1'' = Inr [38, 1] \<and> malformed_extended 38 [1] \<and>
   parse_ansi_to_spans (''A'' @ [ESC] @ ''[38;1mB'') =
     Inr [\<lparr>span_text = ''A'', style = \<lparr>bold = False, fg = None, bg = None\<rparr>\<rparr>,
          \<lparr>span_text = ''B'', style = \<lparr>bold = True, fg = None, bg = None\<rparr>\<rparr>]"
  by (simp add: malformed_extended_def sgr_eval)

text \<open>
  Claim C7, amended. A malformed extended-color marker (38 or 48 not followed, within
  the same parameter list, by both the selector 5 and a palette index) is itself ignored:
  it changes no style, closes no run and consumes no other parameter, wherever it stands
  in the list. The parameters after it are interpreted as they would be without the
  marker in front of them.
\<close>

theorem malformed_marker_skipped:
  "(malformed_extended c rest \<longrightarrow> sgr_params (c # rest) 0 st = sgr_params rest 0 st)
   \<and> (j < length parts \<and> malformed_extended (parts ! j) (drop (Suc j) parts) \<longrightarrow>
        sgr_params parts j st = sgr_params parts (Suc j) st)"
  using malformed_skipped_head [of c rest st] malformed_skipped_at [of j parts st] by blast

theorem malformed_marker_skipped_witness:
  "malformed_extended 38 [5] \<and>
   sgr_params [38, 5] 0 \<lparr>spans = [], cur = Style_default, buf = [''A'']\<rparr> =
     sgr_params [5] 0 \<lparr>spans = [], cur = Style_default, buf = [''A'']\<rparr> \<and>
   sgr_params [5] 0 \<lparr>spans = [], cur = Style_default, buf = [''A'']\<rparr> =
     \<lparr>spans = [], cur = Style_default, buf = [''A'']\<rparr> \<and>
   (1::nat) < length [1, 48, 1 :: int] \<and> malformed_extended ([1, 48, 1] ! 1) (drop (Suc 1) [1, 48, 1]) \<and>
   sgr_params [1, 48, 1] 1 \<lparr>spans = [], cur = Style_default, buf = [''A'']\<rparr> =
     sgr_params [1, 48, 1] (Suc 1) \<lparr>spans = [], cur = Style_default, buf = [''A'']\<rparr>"
proof -
  have h: "malformed_extended 38 [5]" by (simp add: malformed_extended_def)
  have h2: "(1::nat) < length [1, 48, 1 :: int] \<and>
            malformed_extended ([1, 48, 1] ! 1) (drop (Suc 1) [1, 48, 1])"
    by (simp add: malformed_extended_def)
  have e: "sgr_params [5] 0 \<lparr>spans = [], cur = Style_default, buf = [''A'']\<rparr> =
     \<lparr>spans = [], cur = Style_default, buf = [''A'']\<rparr>"
    by (simp add: sgr_params.simps sgr_param_step_def)
  show ?thesis
    using h h2 e
      malformed_marker_skipped [of 38 "[5]" "\<lparr>spans = [], cur = Style_default, buf = [''A'']\<rparr>" 1 "[1, 48, 1]"]
    by blast
qed

section \<open>Properties of the frame headers\<close>

text \<open>The equations that evaluate \<open>is_step_header\<close> on a concrete line.\<close>

lemmas hdr_eval =
  is_step_header_def STEP_HDR_VARIANTS_def STEP_HDR_A_def STEP_HDR_B_def step_hdr_head_def
  opt_lit_ci_def ws_plus_def ws_star_def digits1_def is_ascii_digit_def ascii_lower_def
  strip_def lstrip_def rstrip_def isspace_def int_of_digits_def int_max_str_digits_def
  ESC_def Let_def

text \<open>With the reset sequence after the step number, as the simulator prints it, the line
  is a header with step 3 and 12 burning cells.\<close>

lemma is_step_header_with_reset:
  "is_step_header (''Step 3'' @ [ESC] @ ''[0m: Burning cells = 12'') = Some (3, 12)"
  by (simp add: hdr_eval)

lemma parse_metrics_with_reset:
  "parse_metrics [''Step 3'' @ [ESC] @ ''[0m: Burning cells = 12''] =
     Inr \<lparr>burning_cells = [Some 12], natural_burnouts = [None], extinguished_cum = [None]\<rparr>"
  by (simp add: parse_metrics_def block_metrics_def splitlines_def is_linebreak_def slice_def
        try_bind_def hdr_eval)

lemma is_step_header_plain: "is_step_header ''Step 3: Burning cells = 12'' = None"
  by (simp add: hdr_eval)

subsection \<open>Headers need the reset sequence\<close>

lemma lit_ci_set: "lit_ci p s = Some r \<Longrightarrow> set r \<subseteq> set s"
  by (induction p s rule: lit_ci.induct) (auto split: if_splits)

lemma opt_lit_ci_set: "set (opt_lit_ci p s) \<subseteq> set s"
  using lit_ci_set [of p s] by (auto simp: opt_lit_ci_def split: option.splits)

lemma ws_plus_set: "ws_plus s = Some r \<Longrightarrow> set r \<subseteq> set s"
  by (auto simp: ws_plus_def split: list.splits if_splits dest: set_dropWhileD)

lemma digits1_set: "digits1 s = Some (g, r) \<Longrightarrow> set r \<subseteq> set s"
  by (auto simp: digits1_def Let_def split: if_splits dest: in_set_dropD)

lemma ascii_lower_ESC: "ascii_lower c = ascii_lower ESC \<Longrightarrow> c = ESC"
proof -
  assume a: "ascii_lower c = ascii_lower ESC"
  have e: "ascii_lower ESC = ESC" by (simp add: ascii_lower_def ESC_def)
  show ?thesis
  proof (cases "65 \<le> (of_char c :: nat) \<and> (of_char c :: nat) \<le> 90")
    case True
    then have "ascii_lower c = char_of ((of_char c :: nat) + 32)" by (simp add: ascii_lower_def)
    then have "(of_char (ascii_lower c) :: nat) = (of_char c + 32) mod 256" by simp
    then have "(of_char (ascii_lower c) :: nat) = of_char c + 32" using True by simp
    moreover have "(of_char (ascii_lower c) :: nat) = 27" using a e by (simp add: ESC_def)
    ultimately show ?thesis by simp
  next
    case False
    then have "ascii_lower c = c" by (auto simp: ascii_lower_def Let_def)
    then show ?thesis using a e by simp
  qed
qed

lemma lit_ci_ESC: "lit_ci (ESC # p) s = Some r \<Longrightarrow> ESC \<in> set s"
  by (cases s) (auto split: if_splits dest: ascii_lower_ESC)

lemma step_hdr_head_ESC: "step_hdr_head s = Some r \<Longrightarrow> ESC \<in> set s"
proof -
  assume a: "step_hdr_head s = Some r"
  then obtain s1 s2 g1 s3 s4 where
    s1: "lit_ci ''Step'' (opt_lit_ci (ESC # ''[1m'') s) = Some s1" and
    s2: "ws_plus s1 = Some s2" and
    s3: "digits1 s2 = Some (g1, s3)" and
    s4: "lit_ci (ESC # ''[0'') s3 = Some s4"
    by (auto simp: step_hdr_head_def split: Option.bind_splits)
  have "ESC \<in> set s3" using s4 by (rule lit_ci_ESC)
  then have "ESC \<in> set s2" using digits1_set [OF s3] by blast
  then have "ESC \<in> set s1" using ws_plus_set [OF s2] by blast
  then have "ESC \<in> set (opt_lit_ci (ESC # ''[1m'') s)" using lit_ci_set [OF s1] by blast
  then show ?thesis using opt_lit_ci_set by blast
qed

lemma strip_set: "set (strip s) \<subseteq> set s"
proof -
  have "set (rstrip t) \<subseteq> set t" for t
    using set_dropWhileD [of _ isspace "rev t"] by (auto simp: rstrip_def)
  moreover have "set (lstrip s) \<subseteq> set s"
    by (auto simp: lstrip_def dest: set_dropWhileD)
  ultimately show ?thesis unfolding strip_def by blast
qed

text \<open>No line without the escape character is a header: both patterns require
  \<open>ESC [ 0\<close> after the step number.\<close>

lemma is_step_header_ESC: "is_step_header line = Some r \<Longrightarrow> ESC \<in> set line"
proof -
  assume a: "is_step_header line = Some r"
  have "\<exists>h. step_hdr_head (strip line) = Some h"
    using a
    by (auto simp: is_step_header_def STEP_HDR_VARIANTS_def STEP_HDR_A_def STEP_HDR_B_def
          split: option.splits Option.bind_splits sum.splits)
  then have "ESC \<in> set (strip line)" using step_hdr_head_ESC by blast
  then show ?thesis using strip_set by blast
qed

text \<open>
  Claim C2 says that the line \<open>Step 3: Burning cells = 12\<close> is recognized as a frame
  header with step 3 and primary metric 12. On this line both patterns fail after the
  step number, where they require \<open>ESC [ 0\<close>: \<open>is_step_header\<close> returns \<open>None\<close>, the
  text has no frame, and the burning-cells entry of a frame headed by the line is absent.
\<close>

theorem step_header_plain_not_recognized:
  "is_step_header ''Step 3: Burning cells = 12'' = None \<and>
   split_frames_by_headers ''Step 3: Burning cells = 12'' = [] \<and>
   parse_metrics [''Step 3: Burning cells = 12''] =
     Inr \<lparr>burning_cells = [None], natural_burnouts = [None], extinguished_cum = [None]\<rparr>"
  by (simp add: split_frames_by_headers_def parse_metrics_def block_metrics_def splitlines_def
        is_linebreak_def slice_def try_bind_def is_step_header_plain)

section \<open>Evaluation on the sample world\<close>

lemmas sample_eval =
  sample_env_def sample_files_def sample_utf8_def sample_json_loads_def record_line_def
  sample_log_def sample_frame1_def sample_frame2_def sample_frame3_def sample_split_def
  sample_indexed_def sample_session_def

lemmas store_eval =
  load_index_jsonl_def open_read_text_def open_read_def try_bind_def text_lines_def
  index_record_def py_or_def obj_get_def has_key_def py_sub_def isfile_def FrameSource_init_def
  FrameSource_len_def FrameSource_get_def py_index_def seek_read_def fits_int64_def strip_def
  lstrip_def rstrip_def isspace_def ESC_def Let_def

lemmas rules_eval =
  line_result_def record_entries_def record_length_def record_offset_def


section \<open>Properties of the index loader\<close>

text \<open>The body of the loop follows the rules of a record.\<close>

lemma truthy_not_null: "truthy v \<Longrightarrow> v \<noteq> JNull"
  by auto

lemma index_record_rules:
  "index_record obj =
     (case record_entries obj of
        Inl e \<Rightarrow> Inl e
      | Inr [] \<Rightarrow> Inr None
      | Inr (ent # _) \<Rightarrow> Inr (Some ent))"
proof (cases obj)
  case (JObject kv)
  show ?thesis
  proof (cases "truthy (obj_get kv ''length'')")
    case True
    then show ?thesis
      using truthy_not_null [OF True]
      by (simp add: JObject index_record_def record_entries_def record_length_def
            record_offset_def py_or_def split: option.splits)
  next
    case False
    show ?thesis
    proof (cases "obj_get kv ''len'' = JNull")
      case True
      show ?thesis
        using False True
        by (simp add: JObject index_record_def record_entries_def record_length_def
              record_offset_def py_or_def split: option.splits sum.splits)
    next
      case n: False
      show ?thesis
        using False n
        by (simp add: JObject index_record_def record_entries_def record_length_def
              record_offset_def py_or_def split: option.splits)
    qed
  qed
qed (simp_all add: index_record_def record_entries_def)

lemma record_entries_short: "record_entries obj = Inr es \<Longrightarrow> length es \<le> 1"
  by (auto simp: record_entries_def split: json.splits sum.splits option.splits)

lemma index_loop_collect:
  "index_loop ev ls acc =
     (case collect (map (line_result ev) ls) of
        Inl e \<Rightarrow> Inl e
      | Inr es \<Rightarrow> Inr (acc @ es))"
proof (induction ls arbitrary: acc)
  case Nil
  then show ?case by simp
next
  case (Cons l ls)
  show ?case
  proof (cases "strip l = []")
    case True
    then show ?thesis using Cons.IH [of acc] by (simp add: line_result_def split: sum.splits)
  next
    case False
    show ?thesis
    proof (cases "json_loads ev l")
      case (Inl e)
      then show ?thesis using False by (simp add: line_result_def)
    next
      case (Inr obj)
      show ?thesis
      proof (cases "record_entries obj")
        case (Inl e)
        then show ?thesis
          using False Inr by (simp add: line_result_def index_record_rules)
      next
        case r: (Inr es)
        show ?thesis
        proof (cases es)
          case Nil
          then show ?thesis
            using False Inr r Cons.IH [of acc]
            by (simp add: line_result_def index_record_rules split: sum.splits)
        next
          case (Cons ent rest)
          then have "rest = []" using record_entries_short [OF r] by simp
          then show ?thesis
            using False Inr r Cons Cons.IH [of "acc @ [ent]"]
            by (simp add: line_result_def index_record_rules split: sum.splits)
        qed
      qed
    qed
  qed
qed

lemma load_index_jsonl_collect:
  "open_read_text ev path = Inr txt0 \<Longrightarrow>
     load_index_jsonl ev path = collect (map (line_result ev) (text_lines txt0))"
  by (simp add: load_index_jsonl_def index_loop_collect split: sum.splits)

lemma collect_abort: "Inl e \<in> set rs \<Longrightarrow> \<exists>e'. collect rs = Inl e'"
proof (induction rs)
  case Nil
  then show ?case by simp
next
  case (Cons r rs)
  show ?case
  proof (cases r)
    case (Inl e1)
    then show ?thesis by simp
  next
    case (Inr xs)
    then have "Inl e \<in> set rs" using Cons.prems by auto
    then obtain e' where "collect rs = Inl e'" using Cons.IH by blast
    then show ?thesis using Inr by simp
  qed
qed

lemma load_index_jsonl_abort:
  assumes "open_read_text ev path = Inr txt0" "line \<in> set (text_lines txt0)"
    and "strip line \<noteq> []" "json_loads ev line = Inl e"
  shows "\<exists>e'. load_index_jsonl ev path = Inl e'"
proof -
  have "line_result ev line = Inl e" using assms(3,4) by (simp add: line_result_def)
  then have "Inl e \<in> set (map (line_result ev) (text_lines txt0))"
    using assms(2) by force
  then show ?thesis
    using collect_abort load_index_jsonl_collect [OF assms(1)] by metis
qed

lemma record_no_offset:
  assumes "\<not> truthy (obj_get kv ''offset'')" "\<not> truthy (obj_get kv ''start'')"
    and "truthy (obj_get kv ''length'')" "as_int (obj_get kv ''length'') = Some b"
  shows "record_entries (JObject kv) = Inr [\<lparr>offset = 0, length' = b\<rparr>]"
  using assms by (simp add: record_entries_def record_length_def record_offset_def)

lemma record_length_zero:
  assumes "obj_get kv ''length'' = JInt 0" "obj_get kv ''len'' = JNull" "\<not> has_key kv ''end''"
  shows "record_entries (JObject kv) = Inr []"
  using assms by (simp add: record_entries_def record_length_def)

text \<open>
  Claim C5, as stated, lets the load skip malformed lines and drop every record without
  an offset. An index whose second line is \<open>not json\<close> aborts the load with
  \<open>JSONDecodeError\<close>, and the record \<open>{"length": 33}\<close> is kept, with offset 0.
\<close>

theorem load_index_jsonl_counterexample:
  "load_index_jsonl sample_env ''bad.index.jsonl'' = Inl JSONDecodeError \<and>
   load_index_jsonl sample_env ''nooffset.index.jsonl'' = Inr [\<lparr>offset = 0, length' = 33\<rparr>]"
  by (simp add: store_eval sample_eval)

text \<open>
  Claim C5, amended. For every index file that is read as UTF-8 text, the load handles
  the lines in file order and skips the blank lines only. A line that \<open>json.loads\<close>
  rejects, a line whose value is not an object, and a record whose \<open>end\<close> and offset
  cannot be subtracted abort the whole load with the error. Otherwise the result has
  exactly, in file order, one entry for each record whose offset and length are both
  integers (booleans count as integers), and the other records are dropped. A field is
  given when its value is true for Python (not absent, null, false, zero or empty); the
  offset is \<open>offset\<close> when given, else \<open>start\<close> when given, else 0; the length is
  \<open>length\<close> when given, else \<open>len\<close> when present and not null, else \<open>end\<close> minus the
  offset when the key \<open>end\<close> is present, else missing. So a record without an offset is
  kept, with offset 0, and a record with \<open>length\<close> 0 and neither \<open>len\<close> nor \<open>end\<close> is
  dropped.
\<close>

theorem load_index_jsonl_lines:
  "(open_read_text ev path = Inr txt0 \<longrightarrow>
      load_index_jsonl ev path = collect (map (line_result ev) (text_lines txt0)))
   \<and> (open_read_text ev path = Inr txt0 \<and> line \<in> set (text_lines txt0) \<and>
        strip line \<noteq> [] \<and> json_loads ev line = Inl e \<longrightarrow>
      (\<exists>e'. load_index_jsonl ev path = Inl e'))
   \<and> (\<not> truthy (obj_get kv ''offset'') \<and> \<not> truthy (obj_get kv ''start'') \<and>
        truthy (obj_get kv ''length'') \<and> as_int (obj_get kv ''length'') = Some b \<longrightarrow>
      record_entries (JObject kv) = Inr [\<lparr>offset = 0, length' = b\<rparr>])
   \<and> (obj_get kv' ''length'' = JInt 0 \<and> obj_get kv' ''len'' = JNull \<and> \<not> has_key kv' ''end'' \<longrightarrow>
      record_entries (JObject kv') = Inr [])"
  using load_index_jsonl_collect [of ev path txt0] load_index_jsonl_abort [of ev path txt0 line e]
    record_no_offset [of kv b] record_length_zero [of kv']
  by blast

theorem load_index_jsonl_lines_witness:
  "load_index_jsonl sample_env ''run.index.jsonl'' =
     Inr [\<lparr>offset = 0, length' = 33\<rparr>, \<lparr>offset = 33, length' = 33\<rparr>,
          \<lparr>offset = 66, length' = 33\<rparr>] \<and>
   load_index_jsonl sample_env ''bad.index.jsonl'' = Inl JSONDecodeError \<and>
   (''not json'' @ [CHR 0x0A]) \<in> set (text_lines (record_line ''offset'' ''0'' ''length'' ''33'' @ [CHR 0x0A] @
              ''not json'' @ [CHR 0x0A])) \<and>
   json_loads sample_env (''not json'' @ [CHR 0x0A]) = Inl JSONDecodeError \<and>
   (\<exists>e'. load_index_jsonl sample_env ''bad.index.jsonl'' = Inl e') \<and>
   load_index_jsonl sample_env ''zero.index.jsonl'' = Inr [] \<and>
   load_index_jsonl sample_env ''end.index.jsonl'' = Inr [\<lparr>offset = 33, length' = 33\<rparr>] \<and>
   record_entries (JObject [(''length'', JInt 33)]) = Inr [\<lparr>offset = 0, length' = 33\<rparr>] \<and>
   record_entries (JObject [(''offset'', JInt 5), (''length'', JInt 0)]) = Inr []"
proof -
  define good where "good = record_line ''offset'' ''0'' ''length'' ''33'' @ [CHR 0x0A] @
              record_line ''offset'' ''33'' ''length'' ''33'' @ [CHR 0x0A] @
              record_line ''offset'' ''66'' ''length'' ''33'' @ [CHR 0x0A]"
  define bad where "bad = record_line ''offset'' ''0'' ''length'' ''33'' @ [CHR 0x0A] @
              ''not json'' @ [CHR 0x0A]"
  define zero where "zero = record_line ''offset'' ''5'' ''length'' ''0'' @ [CHR 0x0A]"
  define ende where "ende = record_line ''start'' ''33'' ''end'' ''66'' @ [CHR 0x0A]"
  let ?kv = "[(''length'', JInt 33)]"
  let ?kv' = "[(''offset'', JInt 5), (''length'', JInt 0)]"
  have h1: "open_read_text sample_env ''run.index.jsonl'' = Inr good"
    by (simp add: good_def store_eval sample_eval)
  have h2: "open_read_text sample_env ''bad.index.jsonl'' = Inr bad"
    by (simp add: bad_def store_eval sample_eval)
  have h3: "open_read_text sample_env ''zero.index.jsonl'' = Inr zero"
    by (simp add: zero_def store_eval sample_eval)
  have h4: "open_read_text sample_env ''end.index.jsonl'' = Inr ende"
    by (simp add: ende_def store_eval sample_eval)
  have c1: "collect (map (line_result sample_env) (text_lines good)) =
     Inr [\<lparr>offset = 0, length' = 33\<rparr>, \<lparr>offset = 33, length' = 33\<rparr>,
          \<lparr>offset = 66, length' = 33\<rparr>]"
    by (simp add: good_def rules_eval store_eval sample_eval)
  have c2: "collect (map (line_result sample_env) (text_lines bad)) = Inl JSONDecodeError"
    by (simp add: bad_def rules_eval store_eval sample_eval)
  have c3: "collect (map (line_result sample_env) (text_lines zero)) = Inr []"
    by (simp add: zero_def rules_eval store_eval sample_eval)
  have c4: "collect (map (line_result sample_env) (text_lines ende)) =
     Inr [\<lparr>offset = 33, length' = 33\<rparr>]"
    by (simp add: ende_def rules_eval store_eval sample_eval)
  have k: "\<not> truthy (obj_get ?kv ''offset'') \<and> \<not> truthy (obj_get ?kv ''start'') \<and>
           truthy (obj_get ?kv ''length'') \<and> as_int (obj_get ?kv ''length'') = Some 33"
    by (simp add: obj_get_def)
  have k': "obj_get ?kv' ''length'' = JInt 0 \<and> obj_get ?kv' ''len'' = JNull \<and>
            \<not> has_key ?kv' ''end''"
    by (simp add: obj_get_def has_key_def)
  let ?l = "''not json'' @ [CHR 0x0A]"
  have m: "?l \<in> set (text_lines bad)"
    by (simp add: bad_def store_eval sample_eval)
  have j: "strip ?l \<noteq> [] \<and> json_loads sample_env ?l = Inl JSONDecodeError"
    by (simp add: store_eval sample_eval)
  have r1: "load_index_jsonl sample_env ''run.index.jsonl'' =
     collect (map (line_result sample_env) (text_lines good))"
    and r5: "record_entries (JObject ?kv) = Inr [\<lparr>offset = 0, length' = 33\<rparr>]"
    and r6: "record_entries (JObject ?kv') = Inr []"
    using load_index_jsonl_lines
      [of sample_env "''run.index.jsonl''" good ?l JSONDecodeError ?kv 33 ?kv'] h1 k k'
    by blast+
  have r2: "load_index_jsonl sample_env ''bad.index.jsonl'' =
     collect (map (line_result sample_env) (text_lines bad))"
    and r7: "\<exists>e'. load_index_jsonl sample_env ''bad.index.jsonl'' = Inl e'"
    using load_index_jsonl_lines
      [of sample_env "''bad.index.jsonl''" bad ?l JSONDecodeError ?kv 33 ?kv'] h2 m j
    by blast+
  have r3: "load_index_jsonl sample_env ''zero.index.jsonl'' =
     collect (map (line_result sample_env) (text_lines zero))"
    using load_index_jsonl_lines
      [of sample_env "''zero.index.jsonl''" zero ?l JSONDecodeError ?kv 33 ?kv'] h3
    by blast
  have r4: "load_index_jsonl sample_env ''end.index.jsonl'' =
     collect (map (line_result sample_env) (text_lines ende))"
    using load_index_jsonl_lines
      [of sample_env "''end.index.jsonl''" ende ?l JSONDecodeError ?kv 33 ?kv'] h4
    by blast
  have a: "load_index_jsonl sample_env ''run.index.jsonl'' =
     Inr [\<lparr>offset = 0, length' = 33\<rparr>, \<lparr>offset = 33, length' = 33\<rparr>,
          \<lparr>offset = 66, length' = 33\<rparr>]"
    unfolding r1 c1 by (rule refl)
  have b: "load_index_jsonl sample_env ''bad.index.jsonl'' = Inl JSONDecodeError"
    unfolding r2 c2 by (rule refl)
  have c: "load_index_jsonl sample_env ''zero.index.jsonl'' = Inr []"
    unfolding r3 c3 by (rule refl)
  have d: "load_index_jsonl sample_env ''end.index.jsonl'' = Inr [\<lparr>offset = 33, length' = 33\<rparr>]"
    unfolding r4 c4 by (rule refl)
  show ?thesis
    using a b c d m [unfolded bad_def] j r5 r6 r7 by blast
qed

section \<open>Properties of the frame store\<close>

lemma FrameSource_get_IndexError:
  "int (FrameSource_len src) < k \<or> k \<le> - int (FrameSource_len src) \<Longrightarrow>
     FrameSource_get ev src k = Inl IndexError"
  by (cases "indexed src") (auto simp: FrameSource_get_def FrameSource_len_def py_index_def Let_def)

lemma api_frame_out_of_range:
  "source sess = Some src \<Longrightarrow> k < 1 \<or> int (FrameSource_len src) < k \<Longrightarrow>
     api_frame ev sess k =
       Inl (HTTPException 400 (''Frame index out of range 1..'' @ str_nat (FrameSource_len src)))"
  by (auto simp: api_frame_def Let_def)

text \<open>
  Claim C3, as stated, makes \<open>get(0)\<close> fail in both modes. On a store of three frames
  \<open>get(0)\<close> reads position \<open>-1\<close> of the list, the last frame, in split mode and in
  random-access mode alike.
\<close>

theorem get_zero_counterexample:
  "FrameSource_len sample_split = 3 \<and>
   FrameSource_get sample_env sample_split 0 = Inr sample_frame3 \<and>
   FrameSource_len sample_indexed = 3 \<and>
   FrameSource_get sample_env sample_indexed 0 = Inr (sample_frame3 @ [CHR 0x0A])"
  by (simp add: store_eval sample_eval)

text \<open>
  Claim C3, amended. In both modes \<open>get(k)\<close> fails with \<open>IndexError\<close> whenever
  \<open>k > length()\<close>, in particular for \<open>length() + 1\<close>, and whenever \<open>k \<le> -length()\<close>.
  The Get Frame operation \<open>api_frame\<close> checks the range itself and fails with the
  bad-input error 400 for every \<open>k\<close> outside \<open>1..length()\<close>, \<open>0\<close> included.
\<close>

theorem get_out_of_range:
  "(int (FrameSource_len src) < k \<or> k \<le> - int (FrameSource_len src) \<longrightarrow>
      FrameSource_get ev src k = Inl IndexError)
   \<and> (source sess = Some src \<and> (k < 1 \<or> int (FrameSource_len src) < k) \<longrightarrow>
      api_frame ev sess k =
        Inl (HTTPException 400 (''Frame index out of range 1..'' @ str_nat (FrameSource_len src))))"
  using FrameSource_get_IndexError [of src k ev] api_frame_out_of_range [of sess src k ev]
  by blast

theorem get_out_of_range_witness:
  "FrameSource_get sample_env sample_split 4 = Inl IndexError \<and>
   FrameSource_get sample_env sample_indexed 4 = Inl IndexError \<and>
   FrameSource_get sample_env sample_split (- 3) = Inl IndexError \<and>
   api_frame sample_env sample_session 0 =
     Inl (HTTPException 400 ''Frame index out of range 1..3'') \<and>
   api_frame sample_env (sample_session\<lparr>source := Some sample_indexed\<rparr>) 4 =
     Inl (HTTPException 400 ''Frame index out of range 1..3'')"
proof -
  have n: "FrameSource_len sample_split = 3" "FrameSource_len sample_indexed = 3"
    by (simp_all add: FrameSource_len_def sample_split_def sample_indexed_def)
  have s: "str_nat 3 = ''3''" by simp
  have src: "source sample_session = Some sample_split"
    "source (sample_session\<lparr>source := Some sample_indexed\<rparr>) = Some sample_indexed"
    by (simp_all add: sample_session_def)
  show ?thesis
    using get_out_of_range [of sample_split 4 sample_env sample_session]
      get_out_of_range [of sample_indexed 4 sample_env "sample_session\<lparr>source := Some sample_indexed\<rparr>"]
      get_out_of_range [of sample_split "- 3" sample_env sample_session]
      get_out_of_range [of sample_split 0 sample_env sample_session]
    by (simp add: n s src)
qed

section \<open>Properties of the server\<close>

text \<open>The equations that evaluate the routes on the sample world.\<close>

lemmas server_eval =
  api_load_def probe_index_def splitext_def rfind_def load_agent_status_def read_text_def
  api_frame_def metric_at_def sample_req_missing_def sample_req_plain_def



subsection \<open>Load\<close>

lemma FrameSource_init_missing_log:
  assumes "files ev path = None" "FrameSource_init ev path ip = Inr src"
  shows "indexed src \<and> entries src \<noteq> [] \<and> ans_path src = path"
proof -
  obtain ents where e: "(case ip of
              Some p \<Rightarrow> if p \<noteq> [] \<and> isfile ev p then load_index_jsonl ev p else Inr []
            | None \<Rightarrow> Inr []) = Inr ents"
    using assms(2) by (auto simp: FrameSource_init_def split: sum.splits)
  have "ents \<noteq> []"
  proof
    assume "ents = []"
    then have "FrameSource_init ev path ip = Inl (FileNotFoundError path)"
      using e assms(1)
      by (simp add: FrameSource_init_def open_read_text_def open_read_def try_bind_def)
    then show False using assms(2) by simp
  qed
  then have "src = \<lparr>ans_path = path, indexed = True, frames = [], entries = ents\<rparr>"
    using e assms(2) by (simp add: FrameSource_init_def)
  then show ?thesis using \<open>ents \<noteq> []\<close> by simp
qed

lemma upto_from_1: "0 < n \<Longrightarrow> [1..int n] = 1 # [2..int n]"
  by (simp add: upto_rec1)

lemma get_all_missing_log:
  assumes "files ev (ans_path src) = None" "indexed src" "entries src \<noteq> []"
  shows "get_all ev src [1..int (FrameSource_len src)] = Inl (FileNotFoundError (ans_path src))"
proof -
  have n: "0 < length (entries src)" using assms(3) by simp
  have len: "FrameSource_len src = length (entries src)"
    using assms(2) by (simp add: FrameSource_len_def)
  have u: "[1..int (FrameSource_len src)] = 1 # [2..int (FrameSource_len src)]"
    unfolding len using n by (rule upto_from_1)
  have "FrameSource_get ev src 1 = Inl (FileNotFoundError (ans_path src))"
    using assms n
    by (simp add: FrameSource_get_def py_index_def seek_read_def open_read_def try_bind_def)
  then show ?thesis by (simp add: u)
qed

lemma api_load_missing_log:
  assumes "files ev (req_ans_path req) = None"
  shows "\<exists>e. api_load ev req sess = (Inl e, sess)"
proof (cases "FrameSource_init ev (req_ans_path req) (probe_index ev req)")
  case (Inl e)
  then show ?thesis by (cases e) (simp_all add: api_load_def)
next
  case (Inr src)
  have s: "indexed src \<and> entries src \<noteq> [] \<and> ans_path src = req_ans_path req"
    using FrameSource_init_missing_log [OF assms Inr] .
  then have g: "get_all ev src [1..int (FrameSource_len src)] = Inl (FileNotFoundError (ans_path src))"
    using get_all_missing_log [of ev src] assms by simp
  have "FrameSource_len src \<noteq> 0" using s by (simp add: FrameSource_len_def)
  then show ?thesis using Inr g by (simp add: api_load_def)
qed

lemma api_load_no_frames:
  "FrameSource_init ev (req_ans_path req) (probe_index ev req) = Inr src \<Longrightarrow>
   FrameSource_len src = 0 \<Longrightarrow>
   api_load ev req sess = (Inl (HTTPException 400 ''No frames detected in file''), sess)"
  by (simp add: api_load_def)

lemma api_load_failure_unchanged:
  assumes "api_load ev req sess = (Inl e, sess')" "load_agent_status ev req = Inr st"
  shows "sess' = sess"
proof (cases "FrameSource_init ev (req_ans_path req) (probe_index ev req)")
  case (Inl e1)
  then show ?thesis using assms(1) by (cases e1) (simp_all add: api_load_def)
next
  case (Inr src)
  show ?thesis
  proof (cases "FrameSource_len src = 0")
    case True
    then show ?thesis using assms(1) Inr by (simp add: api_load_def)
  next
    case False
    show ?thesis
    proof (cases "get_all ev src [1..int (FrameSource_len src)]")
      case (Inl e2)
      then show ?thesis using assms(1) Inr False by (simp add: api_load_def)
    next
      case (Inr raws)
      then show ?thesis
        using assms \<open>FrameSource_init ev (req_ans_path req) (probe_index ev req) = Inr src\<close> False
        by (cases "parse_metrics raws") (simp_all add: api_load_def Let_def)
    qed
  qed
qed

text \<open>
  Claim C8. A load that fails because the log file does not exist, or because no frame
  can be derived by either strategy, leaves the session (frame source, metrics and
  annotation lines) as it was. More generally, whenever \<open>api_load\<close> fails and the read
  of the optional agent status does not itself fail, the session is unchanged.
\<close>

theorem api_load_all_or_nothing:
  "(files ev (req_ans_path req) = None \<longrightarrow> (\<exists>e. api_load ev req sess = (Inl e, sess)))
   \<and> (FrameSource_init ev (req_ans_path req) (probe_index ev req) = Inr src \<and>
        FrameSource_len src = 0 \<longrightarrow>
      api_load ev req sess = (Inl (HTTPException 400 ''No frames detected in file''), sess))
   \<and> (api_load ev req sess = (Inl e, sess') \<and> load_agent_status ev req = Inr st \<longrightarrow>
      sess' = sess)"
  using api_load_missing_log [of ev req sess] api_load_no_frames [of ev req src sess]
    api_load_failure_unchanged [of ev req sess e sess' st]
  by blast

theorem api_load_all_or_nothing_witness:
  "files sample_env (req_ans_path sample_req_missing) = None \<and>
   (\<exists>e. api_load sample_env sample_req_missing sample_session = (Inl e, sample_session)) \<and>
   api_load sample_env sample_req_plain sample_session =
     (Inl (HTTPException 400 ''No frames detected in file''), sample_session)"
proof -
  define src where "src = \<lparr>ans_path = ''plain.ans'', indexed = False, frames = [], entries = []\<rparr>"
  have h1: "files sample_env (req_ans_path sample_req_missing) = None"
    by (simp add: sample_req_missing_def sample_env_def sample_files_def)
  have p: "probe_index sample_env sample_req_plain = None"
    by (simp add: server_eval store_eval sample_eval)
  have nh: "is_step_header ''no header here'' = None"
    by (simp add: hdr_eval)
  have h2: "FrameSource_init sample_env (req_ans_path sample_req_plain)
              (probe_index sample_env sample_req_plain) = Inr src \<and> FrameSource_len src = 0"
    unfolding p
    by (simp add: src_def sample_req_plain_def FrameSource_init_def FrameSource_len_def
          open_read_text_def open_read_def try_bind_def sample_env_def sample_files_def
          sample_utf8_def
          split_frames_by_headers_def splitlines_def is_linebreak_def nh)
  have h3: "load_agent_status sample_env sample_req_missing = Inr []"
    by (simp add: load_agent_status_def sample_req_missing_def)
  from api_load_all_or_nothing [of sample_env sample_req_missing sample_session src] h1
  have r1: "\<exists>e. api_load sample_env sample_req_missing sample_session = (Inl e, sample_session)"
    by blast
  from api_load_all_or_nothing [of sample_env sample_req_plain sample_session src] h2
  have r2: "api_load sample_env sample_req_plain sample_session =
     (Inl (HTTPException 400 ''No frames detected in file''), sample_session)"
    by blast
  show ?thesis using h1 r1 r2 by simp
qed

end
